theory Spec2Isabelle
  imports Complex_Main "HOL-Library.Char_ord"
begin

section \<open>JavaScript strings\<close>

text \<open>
  A document is a \<^typ>\<open>string\<close>: one \<^typ>\<open>char\<close> per UTF-16 code unit, for the code
  units below 256. \<open>String.prototype.trim\<close> removes white space and line terminators
  from both ends; below 256 these are TAB, LF, VT, FF, CR, SPACE and NBSP.
\<close>

definition is_space :: "char \<Rightarrow> bool" where
  "is_space c = (c \<in> set [CHR 0x09, CHR 0x0A, CHR 0x0B, CHR 0x0C, CHR 0x0D, CHR 0x20, CHR 0xA0])"

definition trim :: "string \<Rightarrow> string" where
  "trim s = rev (dropWhile is_space (rev (dropWhile is_space s)))"

text \<open>\<open>content.split('\n')\<close>: the segments between line feeds, never an empty list
  (\<open>cur\<close> is the segment read so far).\<close>

fun split_from :: "string \<Rightarrow> string \<Rightarrow> string list" where
  "split_from cur [] = [cur]"
| "split_from cur (c # cs) =
     (if c = CHR 0x0A then cur # split_from [] cs else split_from (cur @ [c]) cs)"

definition split_lines :: "string \<Rightarrow> string list" where
  "split_lines s = split_from [] s"

text \<open>\<open>blockContent.join('\n')\<close>.\<close>

fun join_lines :: "string list \<Rightarrow> string" where
  "join_lines [] = []"
| "join_lines [l] = l"
| "join_lines (l # ls) = l @ CHR 0x0A # join_lines ls"

text \<open>The character class \<open>\w\<close> of a regular expression without the unicode flag.\<close>

definition is_word_char :: "char \<Rightarrow> bool" where
  "is_word_char c =
     ((CHR ''a'' \<le> c \<and> c \<le> CHR ''z'') \<or> (CHR ''A'' \<le> c \<and> c \<le> CHR ''Z'') \<or>
      (CHR ''0'' \<le> c \<and> c \<le> CHR ''9'') \<or> c = CHR ''_'')"

definition is_alpha :: "char \<Rightarrow> bool" where
  "is_alpha c = ((CHR ''a'' \<le> c \<and> c \<le> CHR ''z'') \<or> (CHR ''A'' \<le> c \<and> c \<le> CHR ''Z''))"


section \<open>Block extractor: \<open>extractMermaidBlocks\<close>\<close>

record block =
  code :: string
  lineStart :: nat
  lineEnd :: nat
  index :: nat

text \<open>The local variables of \<open>extractMermaidBlocks\<close>.\<close>

record extractor =
  blocks :: "block list"
  inMermaidBlock :: bool
  blockStart :: nat
  blockContent :: "string list"
  blockIndex :: nat

definition fence_open :: string where
  "fence_open = ''```mermaid''"

definition fence_close :: string where
  "fence_close = ''```''"

text \<open>The body of the \<open>for\<close> loop, at index \<open>i\<close> with \<open>line = lines[i]\<close>.\<close>

definition loop_body :: "extractor \<Rightarrow> nat \<Rightarrow> string \<Rightarrow> extractor" where
  "loop_body s i line =
     (if trim line = fence_open then
        s\<lparr>inMermaidBlock := True, blockStart := i + 1, blockContent := []\<rparr>
      else if inMermaidBlock s \<and> trim line = fence_close then
        s\<lparr>inMermaidBlock := False,
          blocks := blocks s @
            [\<lparr>code = join_lines (blockContent s), lineStart = blockStart s,
              lineEnd = i, index = blockIndex s\<rparr>],
          blockIndex := blockIndex s + 1,
          blockContent := []\<rparr>
      else if inMermaidBlock s then
        s\<lparr>blockContent := blockContent s @ [line]\<rparr>
      else s)"

text \<open>
  \<open>for (let i = 0; i < lines.length; i++)\<close>: \<open>scan i ls s\<close> runs the body on the
  remaining lines \<open>ls\<close>, the first of which has index \<open>i\<close>.
\<close>

fun scan :: "nat \<Rightarrow> string list \<Rightarrow> extractor \<Rightarrow> extractor" where
  "scan i [] s = s"
| "scan i (line # ls) s = scan (i + 1) ls (loop_body s i line)"

definition initial :: extractor where
  "initial = \<lparr>blocks = [], inMermaidBlock = False, blockStart = 0, blockContent = [],
     blockIndex = 0\<rparr>"

definition extract_lines :: "string list \<Rightarrow> block list" where
  "extract_lines ls = blocks (scan 0 ls initial)"

definition extractMermaidBlocks :: "string \<Rightarrow> block list" where
  "extractMermaidBlocks content = extract_lines (split_lines content)"


subsection \<open>Shapes of documents\<close>

text \<open>
  A well-formed fence: lines outside any diagram block (none of them an open marker), an
  open marker, content lines (none of them a marker), and a close marker.
\<close>

record fenced =
  before :: "string list"
  opener :: string
  body :: "string list"
  closer :: string

definition fenced_lines :: "fenced \<Rightarrow> string list" where
  "fenced_lines f = before f @ [opener f] @ body f @ [closer f]"

definition well_formed :: "fenced \<Rightarrow> bool" where
  "well_formed f \<longleftrightarrow>
     (\<forall>l\<in>set (before f). trim l \<noteq> fence_open) \<and>
     trim (opener f) = fence_open \<and>
     (\<forall>l\<in>set (body f). trim l \<noteq> fence_open \<and> trim l \<noteq> fence_close) \<and>
     trim (closer f) = fence_close"

text \<open>The number of open markers among the lines of a document.\<close>

definition open_markers :: "string list \<Rightarrow> nat" where
  "open_markers ls = length (filter (\<lambda>l. trim l = fence_open) ls)"

text \<open>
  Where a block sits among the lines \<open>ls\<close> of its document: the line numbered
  \<open>lineStart\<close> (counting from 1) is an open marker, the line at index \<open>lineEnd\<close>
  (counting from 0) is a close marker, and the code is the lines between the two.
\<close>

definition placed :: "string list \<Rightarrow> block \<Rightarrow> bool" where
  "placed ls b \<longleftrightarrow>
     1 \<le> lineStart b \<and> lineStart b \<le> lineEnd b \<and> lineEnd b < length ls \<and>
     trim (ls ! (lineStart b - 1)) = fence_open \<and>
     trim (ls ! lineEnd b) = fence_close \<and>
     code b = join_lines (take (lineEnd b - lineStart b) (drop (lineStart b) ls))"

text \<open>The loop invariant of the scan, after the lines before index \<open>i\<close>.\<close>

definition scan_inv :: "string list \<Rightarrow> nat \<Rightarrow> extractor \<Rightarrow> bool" where
  "scan_inv ls i s \<longleftrightarrow>
     list_all (placed ls) (blocks s) \<and>
     (inMermaidBlock s \<longrightarrow>
        1 \<le> blockStart s \<and> blockStart s \<le> i \<and>
        trim (ls ! (blockStart s - 1)) = fence_open \<and>
        blockContent s = take (i - blockStart s) (drop (blockStart s) ls))"


section \<open>Diagram type: \<open>detectDiagramType\<close>\<close>

text \<open>
  The function returns \<open>typeMap[type] || type\<close>. \<open>typeMap\<close> is an object literal, so the
  lookup finds the six own keys and, for any other key, the properties that every object
  inherits from \<open>Object.prototype\<close>; these are functions (or, for \<open>__proto__\<close>, an
  object), all of them truthy and none of them a string.
\<close>

datatype js_value = JsString string | ObjectPrototypeMember string

text \<open>The table of \<open>mermaid-check.mjs\<close>.\<close>

definition typeMap :: "(string \<times> string) list" where
  "typeMap =
     [(''graph'', ''flowchart''), (''sequenceDiagram'', ''sequence''),
      (''classDiagram'', ''class''), (''stateDiagram'', ''state''),
      (''erDiagram'', ''er''), (''journey'', ''journey map'')]"

text \<open>The table of \<open>validate.mjs\<close> and \<open>extract.mjs\<close>.\<close>

definition typeMap' :: "(string \<times> string) list" where
  "typeMap' =
     [(''graph'', ''flowchart''), (''sequenceDiagram'', ''sequence''),
      (''classDiagram'', ''class''), (''stateDiagram'', ''state''),
      (''erDiagram'', ''er''), (''journey'', ''journey-map'')]"

definition object_prototype_names :: "string list" where
  "object_prototype_names =
     [''constructor'', ''__defineGetter__'', ''__defineSetter__'', ''hasOwnProperty'',
      ''__lookupGetter__'', ''__lookupSetter__'', ''isPrototypeOf'',
      ''propertyIsEnumerable'', ''toString'', ''valueOf'', ''__proto__'',
      ''toLocaleString'']"

text \<open>\<open>tm[type] || type\<close> for an object literal \<open>tm\<close> with string values.\<close>

definition lookup_or_self :: "(string \<times> string) list \<Rightarrow> string \<Rightarrow> js_value" where
  "lookup_or_self tm type =
     (case map_of tm type of
        Some v \<Rightarrow> if v \<noteq> [] then JsString v else JsString type
      | None \<Rightarrow>
          if type \<in> set object_prototype_names then ObjectPrototypeMember type
          else JsString type)"

text \<open>
  \<open>code.match(/^(\w+)/)\<close>: the longest run of word characters at the start of the
  code \<open>src\<close>.
\<close>

definition detect_with :: "(string \<times> string) list \<Rightarrow> string \<Rightarrow> js_value" where
  "detect_with tm src =
     (let typeMatch = takeWhile is_word_char src in
      if typeMatch \<noteq> [] then lookup_or_self tm typeMatch else JsString ''unknown'')"

definition detectDiagramType :: "string \<Rightarrow> js_value" where
  "detectDiagramType src = detect_with typeMap src"

definition detectDiagramType' :: "string \<Rightarrow> js_value" where
  "detectDiagramType' src = detect_with typeMap' src"


section \<open>Block validator: the function returned by \<open>setupMermaidValidator\<close>\<close>

text \<open>
  A thrown value, as far as the code reads it: \<open>message\<close> is \<open>error.message\<close> (empty when
  the property is missing or falsy) and \<open>string_form\<close> is \<open>error.toString()\<close>. The
  thrown value is an object, as the errors of Mermaid and of Node are: \<open>throw null\<close> and
  \<open>throw undefined\<close>, whose properties cannot be read, are outside the model. A
  computation that may throw returns \<open>Inl\<close> of the thrown value.
\<close>

record js_error =
  message :: string
  string_form :: string

type_synonym 'a js_result = "js_error + 'a"

text \<open>The external parser \<open>mermaid.parse\<close>: it accepts the code or throws.\<close>

type_synonym parser = "string \<Rightarrow> unit js_result"

record validation_result =
  valid :: bool
  executionTime :: real
  error :: "string option"

text \<open>
  \<open>performance.now()\<close>: \<open>clock k\<close> is the value of the \<open>k\<close>-th reading of a run; the
  number of readings taken so far is threaded through the calls.
\<close>

definition validate ::
  "(nat \<Rightarrow> real) \<Rightarrow> parser \<Rightarrow> string \<Rightarrow> nat \<Rightarrow> validation_result js_result \<times> nat" where
  "validate clock parse src k =
     (let startTime = clock k in
      case parse src of
        Inr _ \<Rightarrow>
          (Inr \<lparr>valid = True, executionTime = clock (k + 1) - startTime, error = None\<rparr>, k + 2)
      | Inl err \<Rightarrow>
          (Inr \<lparr>valid = False, executionTime = clock (k + 1) - startTime,
                error = Some (if message err \<noteq> [] then message err else string_form err)\<rparr>,
           k + 2))"


section \<open>The environment of a run\<close>

text \<open>
  A path of the file system holds nothing, a directory, a file that cannot be read (with
  the error that reading it throws), or a file with its content.
\<close>

datatype fs_entry = Missing | Directory | Unreadable js_error | File string

text \<open>
  Errors thrown by Node itself. The text of such a message is shortened to its leading
  words; no property below depends on it.
\<close>

definition node_error :: "string \<Rightarrow> js_error" where
  "node_error text = \<lparr>message = text, string_form = ''Error: '' @ text\<rparr>"

definition enoent :: "string \<Rightarrow> js_error" where
  "enoent path = node_error (''ENOENT: no such file or directory, open '' @ path)"

definition eisdir :: js_error where
  "eisdir = node_error ''EISDIR: illegal operation on a directory''"

definition eexist :: "string \<Rightarrow> js_error" where
  "eexist path = node_error (''EEXIST: file already exists, mkdir '' @ path)"

definition json_syntax_error :: js_error where
  "json_syntax_error =
     \<lparr>message = ''Unexpected token'', string_form = ''SyntaxError: Unexpected token''\<rparr>"

definition command_failed :: "string \<Rightarrow> js_error" where
  "command_failed cmd = node_error (''Command failed: '' @ cmd)"

text \<open>
  The objects the scripts build. An object built by spreading others
  (\<open>{...block, diagramType, ...result}\<close>) is a record of its parts. \<open>tally\<close> holds the
  three running totals that both orchestrators keep.
\<close>

record diagram =
  extracted :: block
  diagramType :: js_value
  validation :: validation_result

record tally =
  validCount :: nat
  invalidCount :: nat
  totalTime :: real

text \<open>
  The result of \<open>validateMarkdownFile\<close> in \<open>mermaid-check.mjs\<close> (without \<open>fileName\<close>, the
  base name of \<open>filePath\<close>, which is only printed).
\<close>

record report = tally +
  filePath :: string
  totalDiagrams :: nat
  diagrams :: "diagram list"

text \<open>
  What \<open>extract.mjs\<close> prints for one block and for a document. The primed fields are the
  source's \<open>filePath\<close>, \<open>lineStart\<close>, \<open>lineEnd\<close>, \<open>diagramType\<close>, \<open>index\<close>,
  \<open>sourceFile\<close>, \<open>outputDir\<close>, \<open>totalBlocks\<close> and \<open>blocks\<close>.
\<close>

record block_info =
  fileName :: string
  filePath' :: string
  lineStart' :: nat
  lineEnd' :: nat
  diagramType' :: js_value
  index' :: nat

record extract_output =
  sourceFile' :: string
  outputDir' :: string
  totalBlocks' :: nat
  blocks' :: "block_info list"

text \<open>
  What \<open>validate.mjs\<close> prints: \<open>detected\<close> is its \<open>diagramType\<close> and \<open>outcome\<close> the
  spread validation result.
\<close>

record validate_output =
  mmdFile :: string
  detected :: js_value
  outcome :: validation_result

text \<open>
  The entries and the result of \<open>check.mjs\<close>: \<open>{...blockInfo, valid, executionTime, error}\<close>,
  and the object it reports (\<open>checkedBlocks\<close> is its \<open>blocks\<close>).
\<close>

record checked_block =
  info :: block_info
  verdict :: validation_result

record check_result = tally +
  sourceFile :: string
  outputDir :: string
  totalBlocks :: nat
  checkedBlocks :: "checked_block list"

text \<open>
  What a run does that can be observed, in order: the validator environment being set up,
  the lines written to the console (a fixed text is a constructor, a text with an
  interpolated value carries the value), the reports printed, and the removal of the
  temporary directory.
\<close>

datatype event =
    SetupValidator
  | Usage
  | FileMissing string
  | NoBlocksNotice string
  | ErrorMessage string
  | PrintReport check_result
  | PrintJson check_result
  | Cleanup string

record world =
  fs :: "string \<Rightarrow> fs_entry"
  readings :: nat
  trace :: "event list"

text \<open>
  The collaborators of the scripts: the outcome of loading and initialising JSDOM and
  Mermaid, the clock, and the functions of Node's \<open>path\<close> (\<open>path_stem\<close> is the base name
  without its extension).
\<close>

record env =
  loadValidator :: "parser js_result"
  clock :: "nat \<Rightarrow> real"
  path_join :: "string \<Rightarrow> string \<Rightarrow> string"
  path_stem :: "string \<Rightarrow> string"

definition emit :: "event \<Rightarrow> world \<Rightarrow> world" where
  "emit e w = w\<lparr>trace := trace w @ [e]\<rparr>"

definition existsSync :: "world \<Rightarrow> string \<Rightarrow> bool" where
  "existsSync w path = (fs w path \<noteq> Missing)"

definition readFileSync :: "world \<Rightarrow> string \<Rightarrow> string js_result" where
  "readFileSync w path =
     (case fs w path of
        File content \<Rightarrow> Inr content
      | Unreadable e \<Rightarrow> Inl e
      | Directory \<Rightarrow> Inl eisdir
      | Missing \<Rightarrow> Inl (enoent path))"

definition writeFileSync :: "world \<Rightarrow> string \<Rightarrow> string \<Rightarrow> world js_result" where
  "writeFileSync w path content =
     (case fs w path of
        Unreadable e \<Rightarrow> Inl e
      | Directory \<Rightarrow> Inl eisdir
      | _ \<Rightarrow> Inr (w\<lparr>fs := (fs w)(path := File content)\<rparr>))"

text \<open>\<open>fs.mkdirSync(dir, { recursive: true })\<close>.\<close>

definition mkdirSync :: "world \<Rightarrow> string \<Rightarrow> world js_result" where
  "mkdirSync w dir =
     (case fs w dir of
        File _ \<Rightarrow> Inl (eexist dir)
      | Unreadable e \<Rightarrow> Inl e
      | _ \<Rightarrow> Inr (w\<lparr>fs := (fs w)(dir := Directory)\<rparr>))"

text \<open>
  \<open>setupMermaidValidator\<close>: the environment is set up and the parser loaded; the function
  it returns is \<^const>\<open>validate\<close> with that parser.
\<close>

definition setupMermaidValidator :: "env \<Rightarrow> world \<Rightarrow> parser js_result \<times> world" where
  "setupMermaidValidator E w = (loadValidator E, emit SetupValidator w)"


section \<open>\<open>validateMarkdownFile\<close> of \<open>mermaid-check.mjs\<close>\<close>

text \<open>
  Of \<open>mermaid-check.mjs\<close> the functions are modelled, not the process: the header comment
  of the script ends at the \<open>*/\<close> inside \<open>"**/*.md"\<close> on its tenth line, so the module
  does not parse and \<open>main\<close> never runs.

  The loop of \<open>validateMarkdownFile\<close> over the blocks, with \<open>results\<close> as it stands.
\<close>

fun validate_blocks ::
  "env \<Rightarrow> parser \<Rightarrow> block list \<Rightarrow> report \<Rightarrow> world \<Rightarrow> report js_result \<times> world" where
  "validate_blocks E validator [] results w = (Inr results, w)"
| "validate_blocks E validator (b # bs) results w =
     (case validate (clock E) validator (code b) (readings w) of
        (Inl e, k) \<Rightarrow> (Inl e, w\<lparr>readings := k\<rparr>)
      | (Inr res, k) \<Rightarrow>
          validate_blocks E validator bs
            (results\<lparr>
               diagrams := diagrams results @
                 [\<lparr>extracted = b, diagramType = detectDiagramType (code b), validation = res\<rparr>],
               totalTime := totalTime results + executionTime res,
               validCount := (if valid res then validCount results + 1 else validCount results),
               invalidCount :=
                 (if valid res then invalidCount results else invalidCount results + 1)\<rparr>)
            (w\<lparr>readings := k\<rparr>))"

definition validateMarkdownFile ::
  "env \<Rightarrow> string \<Rightarrow> parser \<Rightarrow> world \<Rightarrow> report js_result \<times> world" where
  "validateMarkdownFile E path validator w =
     (case readFileSync w path of
        Inl e \<Rightarrow> (Inl e, w)
      | Inr content \<Rightarrow>
          (let bs = extractMermaidBlocks content in
           validate_blocks E validator bs
             \<lparr>validCount = 0, invalidCount = 0, totalTime = 0, filePath = path,
               totalDiagrams = length bs, diagrams = []\<rparr> w))"


section \<open>The pipeline of \<open>check.mjs\<close>: \<open>extract.mjs\<close>, \<open>validate.mjs\<close>, \<open>check.mjs\<close>\<close>

text \<open>
  \<open>check.mjs\<close> runs the scripts \<open>extract.mjs\<close> and \<open>validate.mjs\<close> of its directory as
  child processes and parses what they print. The two scripts are modelled from their
  sources in the repository; the files that \<open>extract.mjs\<close> writes are read back by
  \<open>validate.mjs\<close> from the same file system.

  What a child process wrote to its standard output: a JSON document, or anything else
  (a notice, the usage text, nothing). \<open>JSON.parse\<close> throws on the latter.
\<close>

datatype 'a stdout = Json 'a | NotJson

definition JSON_parse :: "'a stdout \<Rightarrow> 'a js_result" where
  "JSON_parse out = (case out of Json v \<Rightarrow> Inr v | NotJson \<Rightarrow> Inl json_syntax_error)"

text \<open>
  \<open>execSync\<close> on the standard output and exit status of the child it ran: it throws when
  the status is not 0. The arguments reach the child as they are written (no path holds a
  character that the shell would interpret).
\<close>

definition execSync :: "string \<Rightarrow> 'a stdout \<times> nat \<Rightarrow> 'a stdout js_result" where
  "execSync cmd r =
     (case r of (out, status) \<Rightarrow> if status \<noteq> 0 then Inl (command_failed cmd) else Inr out)"

text \<open>A number and a diagram type inside a template literal.\<close>

fun show_nat :: "nat \<Rightarrow> string" where
  "show_nat n =
     (if n < 10 then [''0123456789'' ! n]
      else show_nat (n div 10) @ [''0123456789'' ! (n mod 10)])"

declare show_nat.simps [simp del]

definition to_text :: "js_value \<Rightarrow> string" where
  "to_text v =
     (case v of
        JsString s \<Rightarrow> s
      | ObjectPrototypeMember n \<Rightarrow>
          if n = ''__proto__'' then ''[object Object]''
          else if n = ''constructor'' then ''function Object() { [native code] }''
          else ''function '' @ n @ ''() { [native code] }'')"

subsection \<open>\<open>extract.mjs\<close>\<close>

text \<open>The loop that saves each block to a file of its own and collects \<open>results\<close>.\<close>

fun save_blocks ::
  "env \<Rightarrow> string \<Rightarrow> string \<Rightarrow> block list \<Rightarrow> block_info list \<Rightarrow> world \<Rightarrow>
   block_info list js_result \<times> world" where
  "save_blocks E mdFileName dir [] results w = (Inr results, w)"
| "save_blocks E mdFileName dir (b # bs) results w =
     (let dt = detectDiagramType' (code b);
          name = mdFileName @ ''_block'' @ show_nat (index b) @ ''_'' @ to_text dt @ ''.mmd'';
          target = path_join E dir name
      in
        case writeFileSync w target (code b) of
          Inl e \<Rightarrow> (Inl e, w)
        | Inr w' \<Rightarrow>
            save_blocks E mdFileName dir bs
              (results @
                 [\<lparr>fileName = name, filePath' = target, lineStart' = lineStart b,
                   lineEnd' = lineEnd b, diagramType' = dt, index' = index b\<rparr>])
              w')"

text \<open>\<open>args[1] || '.mermaid_temp'\<close>.\<close>

definition output_dir :: "string list \<Rightarrow> string" where
  "output_dir args = (if 1 < length args \<and> args ! 1 \<noteq> [] then args ! 1 else ''.mermaid_temp'')"

text \<open>
  \<open>main\<close> of \<open>extract.mjs\<close> after the existence check: what it prints and its exit
  status, or the error it throws.
\<close>

definition extract_body ::
  "env \<Rightarrow> string \<Rightarrow> string \<Rightarrow> world \<Rightarrow> (extract_output stdout \<times> nat) js_result \<times> world" where
  "extract_body E mdFile dir w =
     (case readFileSync w mdFile of
        Inl e \<Rightarrow> (Inl e, w)
      | Inr content \<Rightarrow>
          (let bs = extractMermaidBlocks content in
           if length bs = 0 then (Inr (NotJson, 0), w)
           else
             (case mkdirSync w dir of
                Inl e \<Rightarrow> (Inl e, w)
              | Inr w1 \<Rightarrow>
                  (case save_blocks E (path_stem E mdFile) dir bs [] w1 of
                     (Inl e, w2) \<Rightarrow> (Inl e, w2)
                   | (Inr results, w2) \<Rightarrow>
                       (Inr (Json \<lparr>sourceFile' = mdFile, outputDir' = dir,
                                   totalBlocks' = length bs, blocks' = results\<rparr>, 0),
                        w2)))))"

text \<open>
  The process \<open>node extract.mjs args\<close>: a missing file and every thrown error end it with
  status 1 and a message on the standard error.
\<close>

definition extract_main ::
  "env \<Rightarrow> string list \<Rightarrow> world \<Rightarrow> (extract_output stdout \<times> nat) \<times> world" where
  "extract_main E args w =
     (if length args = 0 then ((NotJson, 1), w)
      else
        let mdFile = args ! 0; dir = output_dir args in
        if \<not> existsSync w mdFile then ((NotJson, 1), w)
        else
          (case extract_body E mdFile dir w of
             (Inl e, w') \<Rightarrow> ((NotJson, 1), w')
           | (Inr r, w') \<Rightarrow> (r, w')))"

subsection \<open>\<open>validate.mjs\<close>\<close>

definition validate_main ::
  "env \<Rightarrow> string list \<Rightarrow> world \<Rightarrow> (validate_output stdout \<times> nat) \<times> world" where
  "validate_main E args w =
     (if length args = 0 then ((NotJson, 1), w)
      else
        let target = args ! 0 in
        if \<not> existsSync w target then ((NotJson, 1), w)
        else
          (case readFileSync w target of
             Inl e \<Rightarrow> ((NotJson, 1), w)
           | Inr src \<Rightarrow>
               (case setupMermaidValidator E w of
                  (Inl e, w1) \<Rightarrow> ((NotJson, 1), w1)
                | (Inr validator, w1) \<Rightarrow>
                    (case validate (clock E) validator src (readings w1) of
                       (Inl e, k) \<Rightarrow> ((NotJson, 1), w1\<lparr>readings := k\<rparr>)
                     | (Inr res, k) \<Rightarrow>
                         ((Json \<lparr>mmdFile = target, detected = detectDiagramType' src,
                                  outcome = res\<rparr>,
                           if valid res then 0 else 1),
                          w1\<lparr>readings := k\<rparr>)))))"

subsection \<open>\<open>check.mjs\<close>\<close>

definition extractBlocks ::
  "env \<Rightarrow> string \<Rightarrow> string \<Rightarrow> world \<Rightarrow> extract_output js_result \<times> world" where
  "extractBlocks E mdFile dir w =
     (case extract_main E [mdFile, dir] w of
        (r, w') \<Rightarrow>
          (case execSync ''node extract.mjs'' r of
             Inl e \<Rightarrow> (Inl e, w')
           | Inr out \<Rightarrow> (JSON_parse out, w')))"

definition validateFile :: "env \<Rightarrow> string \<Rightarrow> world \<Rightarrow> validate_output js_result \<times> world" where
  "validateFile E target w =
     (case validate_main E [target] w of
        (r, w') \<Rightarrow>
          (case execSync ''node validate.mjs'' r of
             Inl e \<Rightarrow> (Inl e, w')
           | Inr out \<Rightarrow> (JSON_parse out, w')))"

text \<open>
  The loop of \<open>main\<close> over \<open>extractResult.blocks\<close>; \<open>acc\<close> holds the four variables
  \<open>blocks\<close>, \<open>totalTime\<close>, \<open>validCount\<close> and \<open>invalidCount\<close> inside the result they end in.
\<close>

fun check_blocks ::
  "env \<Rightarrow> block_info list \<Rightarrow> check_result \<Rightarrow> world \<Rightarrow> check_result js_result \<times> world" where
  "check_blocks E [] acc w = (Inr acc, w)"
| "check_blocks E (blockInfo # rest) acc w =
     (case validateFile E (filePath' blockInfo) w of
        (Inl e, w') \<Rightarrow> (Inl e, w')
      | (Inr validationResult, w') \<Rightarrow>
          check_blocks E rest
            (acc\<lparr>
               checkedBlocks := checkedBlocks acc @
                 [\<lparr>info = blockInfo,
                   verdict = \<lparr>valid = valid (outcome validationResult),
                     executionTime = executionTime (outcome validationResult),
                     error = error (outcome validationResult)\<rparr>\<rparr>],
               totalTime := totalTime acc + executionTime (outcome validationResult),
               validCount :=
                 (if valid (outcome validationResult) then validCount acc + 1
                  else validCount acc),
               invalidCount :=
                 (if valid (outcome validationResult) then invalidCount acc
                  else invalidCount acc + 1)\<rparr>)
            w')"

text \<open>\<open>cleanup\<close>: the removal is attempted and its own failure ignored.\<close>

definition cleanup :: "string \<Rightarrow> world \<Rightarrow> world" where
  "cleanup dir w = emit (Cleanup dir) w"

text \<open>The \<open>try\<close> block of \<open>main\<close>: \<open>Inr c\<close> is \<open>process.exit(c)\<close>, \<open>Inl e\<close> a throw.\<close>

definition check_try ::
  "env \<Rightarrow> string \<Rightarrow> string \<Rightarrow> bool \<Rightarrow> bool \<Rightarrow> world \<Rightarrow> nat js_result \<times> world" where
  "check_try E mdFile dir keepTemp quiet w =
     (case extractBlocks E mdFile dir w of
        (Inl e, w1) \<Rightarrow> (Inl e, w1)
      | (Inr extractResult, w1) \<Rightarrow>
          if totalBlocks' extractResult = 0 then
            (Inr 0, if \<not> quiet then emit (NoBlocksNotice mdFile) w1 else w1)
          else
            (case check_blocks E (blocks' extractResult)
                    \<lparr>validCount = 0, invalidCount = 0, totalTime = 0, sourceFile = mdFile,
                      outputDir = dir, totalBlocks = totalBlocks' extractResult,
                      checkedBlocks = []\<rparr> w1 of
               (Inl e, w2) \<Rightarrow> (Inl e, w2)
             | (Inr res, w2) \<Rightarrow>
                 (let w3 = emit (if quiet then PrintJson res else PrintReport res) w2;
                      w4 = (if \<not> keepTemp then cleanup dir w3 else w3)
                  in (Inr (if invalidCount res > 0 then 1 else 0), w4))))"

text \<open>The process \<open>node check.mjs args\<close>: its exit code and what it did.\<close>

definition check_main :: "env \<Rightarrow> string list \<Rightarrow> world \<Rightarrow> nat \<times> world" where
  "check_main E args w =
     (if length args = 0 then (1, emit Usage w)
      else
        let mdFile = args ! 0;
            dir = output_dir args;
            keepTemp = (''--keep-temp'' \<in> set args);
            quiet = (''--quiet'' \<in> set args)
        in
          if \<not> existsSync w mdFile then (1, emit (FileMissing mdFile) w)
          else
            (case check_try E mdFile dir keepTemp quiet w of
               (Inr status, w') \<Rightarrow> (status, w')
             | (Inl e, w') \<Rightarrow> (1, cleanup dir (emit (ErrorMessage (message e)) w'))))"


section \<open>Example runs\<close>

text \<open>
  A parser that rejects one text, an environment that joins paths with a slash, and a
  world holding the given files.
\<close>

definition example_parser :: parser where
  "example_parser src =
     (if src = ''oops'' then
        Inl \<lparr>message = ''Parse error on line 1'', string_form = ''Error: Parse error on line 1''\<rparr>
      else Inr ())"

definition example_env :: env where
  "example_env =
     \<lparr>loadValidator = Inr example_parser,
      clock = (\<lambda>k. 5 * real k),
      path_join = (\<lambda>d f. d @ ''/'' @ f),
      path_stem = (\<lambda>p. takeWhile (\<lambda>c. c \<noteq> CHR ''.'') p)\<rparr>"

definition example_world :: "(string \<times> fs_entry) list \<Rightarrow> world" where
  "example_world entries =
     \<lparr>fs = (\<lambda>p. case map_of entries p of Some e \<Rightarrow> e | None \<Rightarrow> Missing),
      readings = 0, trace = []\<rparr>"

definition plain_document :: string where
  "plain_document = ''# Notes\<newline>no diagram here''"

definition valid_document :: string where
  "valid_document = ''# Title\<newline>```mermaid\<newline>graph TD\<newline>A-->B\<newline>```\<newline>end''"

definition invalid_document :: string where
  "invalid_document = ''```mermaid\<newline>oops\<newline>```''"

definition nested_document :: string where
  "nested_document = ''```mermaid\<newline>A\<newline>```mermaid\<newline>B\<newline>```''"



section \<open>Invariants of the orchestrators\<close>

text \<open>The running totals of a report agree with its entries.\<close>

definition tallied :: "report \<Rightarrow> bool" where
  "tallied r \<longleftrightarrow>
     validCount r = length (filter (\<lambda>d. valid (validation d)) (diagrams r)) \<and>
     invalidCount r = length (filter (\<lambda>d. \<not> valid (validation d)) (diagrams r)) \<and>
     totalTime r = sum_list (map (\<lambda>d. executionTime (validation d)) (diagrams r))"

text \<open>The running totals of a result of \<open>check.mjs\<close> agree with its entries.\<close>

definition checked :: "check_result \<Rightarrow> bool" where
  "checked r \<longleftrightarrow>
     validCount r + invalidCount r = length (checkedBlocks r) \<and>
     totalTime r = sum_list (map (\<lambda>b. executionTime (verdict b)) (checkedBlocks r))"






section \<open>Properties of the block extractor\<close>

subsection \<open>Splitting and joining lines\<close>

lemma split_from_nonempty: "split_from cur s \<noteq> []"
  by (induction s arbitrary: cur) auto

lemma split_from_join: "join_lines (split_from cur s) = cur @ s"
proof (induction s arbitrary: cur)
  case Nil
  show ?case by simp
next
  case (Cons c cs)
  show ?case
  proof (cases "c = CHR 0x0A")
    case True
    have "split_from [] cs \<noteq> []" by (rule split_from_nonempty)
    then obtain l ls where e: "split_from [] cs = l # ls"
      by (cases "split_from [] cs") auto
    have "join_lines (l # ls) = cs" using Cons.IH[of "[]"] e by simp
    then show ?thesis using True e by simp
  next
    case False
    then show ?thesis using Cons.IH[of "cur @ [c]"] by simp
  qed
qed

lemma join_split_lines: "join_lines (split_lines s) = s"
  by (simp add: split_lines_def split_from_join)

lemma split_from_prefix:
  "CHR 0x0A \<notin> set a \<Longrightarrow> split_from cur (a @ CHR 0x0A # s) = (cur @ a) # split_from [] s"
  by (induction a arbitrary: cur) auto

lemma split_from_single: "CHR 0x0A \<notin> set b \<Longrightarrow> split_from cur b = [cur @ b]"
  by (induction b arbitrary: cur) auto

lemma split_from_snoc:
  "CHR 0x0A \<notin> set b \<Longrightarrow> split_from cur (s @ CHR 0x0A # b) = split_from cur s @ [b]"
  by (induction s arbitrary: cur) (auto simp: split_from_single)

lemma trim_fence_open: "trim fence_open = fence_open"
  by (simp add: trim_def fence_open_def is_space_def)

lemma trim_fence_close: "trim fence_close = fence_close"
  by (simp add: trim_def fence_close_def is_space_def)

lemma fence_open_neq_close: "fence_open \<noteq> fence_close"
  by (simp add: fence_open_def fence_close_def)

lemma split_lines_fenced:
  "split_lines (fence_open @ CHR 0x0A # S @ CHR 0x0A # fence_close) =
     fence_open # split_lines S @ [fence_close]"
proof -
  have o: "CHR 0x0A \<notin> set fence_open" by (simp add: fence_open_def)
  have c: "CHR 0x0A \<notin> set fence_close" by (simp add: fence_close_def)
  show ?thesis
    unfolding split_lines_def
    using split_from_prefix[OF o, of "[]" "S @ CHR 0x0A # fence_close"]
      split_from_snoc[OF c, of "[]" S]
    by simp
qed

subsection \<open>The scan over runs of lines\<close>

lemma scan_append: "scan i (xs @ ys) s = scan (i + length xs) ys (scan i xs s)"
  by (induction xs arbitrary: i s) auto

lemma scan_content:
  "inMermaidBlock s \<Longrightarrow> \<forall>l\<in>set ls. trim l \<noteq> fence_close \<and> trim l \<noteq> fence_open \<Longrightarrow>
   scan i ls s = s\<lparr>blockContent := blockContent s @ ls\<rparr>"
  by (induction ls arbitrary: i s) (auto simp: loop_body_def)

lemma scan_outside:
  "\<not> inMermaidBlock s \<Longrightarrow> \<forall>l\<in>set ls. trim l \<noteq> fence_open \<Longrightarrow> scan i ls s = s"
  by (induction ls arbitrary: i s) (auto simp: loop_body_def)


subsection \<open>Positions of the extracted blocks\<close>

lemma scan_inv_step:
  assumes inv: "scan_inv ls i s" and i: "i < length ls"
  shows "scan_inv ls (i + 1) (loop_body s i (ls ! i))"
proof -
  consider (op) "trim (ls ! i) = fence_open"
    | (cl) "trim (ls ! i) \<noteq> fence_open" "inMermaidBlock s" "trim (ls ! i) = fence_close"
    | (ct) "trim (ls ! i) \<noteq> fence_open" "inMermaidBlock s" "trim (ls ! i) \<noteq> fence_close"
    | (out) "trim (ls ! i) \<noteq> fence_open" "\<not> inMermaidBlock s"
    by blast
  then show ?thesis
  proof cases
    case op
    then show ?thesis using inv by (simp add: scan_inv_def loop_body_def)
  next
    case cl
    then show ?thesis using inv i by (simp add: scan_inv_def loop_body_def placed_def)
  next
    case ct
    from inv ct have st: "blockStart s \<le> i"
      and bc: "blockContent s = take (i - blockStart s) (drop (blockStart s) ls)"
      by (simp_all add: scan_inv_def)
    have "take (Suc (i - blockStart s)) (drop (blockStart s) ls) =
          take (i - blockStart s) (drop (blockStart s) ls) @ [drop (blockStart s) ls ! (i - blockStart s)]"
      using st i by (intro take_Suc_conv_app_nth) simp
    moreover have "drop (blockStart s) ls ! (i - blockStart s) = ls ! i"
      using st i by simp
    moreover have "Suc i - blockStart s = Suc (i - blockStart s)"
      using st by simp
    ultimately have "blockContent s @ [ls ! i] = take (Suc i - blockStart s) (drop (blockStart s) ls)"
      using bc by simp
    then show ?thesis using inv ct by (simp add: scan_inv_def loop_body_def)
  next
    case out
    then show ?thesis using inv by (simp add: scan_inv_def loop_body_def)
  qed
qed

lemma scan_inv_scan:
  "scan_inv all i s \<Longrightarrow> drop i all = ls \<Longrightarrow> i \<le> length all \<Longrightarrow>
   scan_inv all (length all) (scan i ls s)"
proof (induction ls arbitrary: i s)
  case Nil
  then have "i = length all" by simp
  with Nil show ?case by simp
next
  case (Cons l ls)
  from Cons.prems(2) have i: "i < length all"
    by (metis drop_all list.distinct(1) not_le)
  from Cons.prems(2) i have l: "all ! i = l"
    by (metis Cons_nth_drop_Suc list.inject)
  from Cons.prems(2) i have d: "drop (i + 1) all = ls"
    by (metis Cons_nth_drop_Suc Suc_eq_plus1 list.inject)
  have "scan_inv all (i + 1) (loop_body s i l)"
    using scan_inv_step[OF Cons.prems(1) i] l by simp
  from Cons.IH[OF this d] i show ?case by simp
qed

lemma extract_lines_placed: "list_all (placed ls) (extract_lines ls)"
proof -
  have "scan_inv ls 0 initial" by (simp add: scan_inv_def initial_def)
  from scan_inv_scan[OF this, of ls] show ?thesis
    by (simp add: scan_inv_def extract_lines_def)
qed

lemma scan_fenced:
  assumes "\<not> inMermaidBlock s" "well_formed f"
  shows "scan i (fenced_lines f) s =
    s\<lparr>inMermaidBlock := False,
      blockStart := Suc (i + length (before f)),
      blockContent := [],
      blocks := blocks s @ [\<lparr>code = join_lines (body f), lineStart = Suc (i + length (before f)),
         lineEnd = Suc (i + length (before f) + length (body f)), index = blockIndex s\<rparr>],
      blockIndex := Suc (blockIndex s)\<rparr>"
proof -
  define s1 where
    "s1 = s\<lparr>inMermaidBlock := True, blockStart := Suc (i + length (before f)), blockContent := []\<rparr>"
  have a: "scan i (before f) s = s"
    using assms by (intro scan_outside) (auto simp: well_formed_def)
  have b: "loop_body s (i + length (before f)) (opener f) = s1"
    using assms by (simp add: loop_body_def well_formed_def s1_def)
  have "inMermaidBlock s1" by (simp add: s1_def)
  then have c: "scan (Suc (i + length (before f))) (body f) s1 = s1\<lparr>blockContent := blockContent s1 @ body f\<rparr>"
    using assms by (intro scan_content) (simp_all add: well_formed_def)
  have d: "trim (closer f) = fence_close" using assms by (simp add: well_formed_def)
  have e: "scan i (fenced_lines f) s =
      loop_body (s1\<lparr>blockContent := blockContent s1 @ body f\<rparr>)
        (Suc (i + length (before f) + length (body f))) (closer f)"
    unfolding fenced_lines_def by (simp add: scan_append a b c)
  show ?thesis
    unfolding e by (simp add: loop_body_def d fence_open_neq_close[symmetric] s1_def)
qed

lemma scan_fenced_list:
  assumes "\<not> inMermaidBlock s" "list_all well_formed fences"
  shows "\<not> inMermaidBlock (scan i (concat (map fenced_lines fences)) s) \<and>
     map code (blocks (scan i (concat (map fenced_lines fences)) s)) =
       map code (blocks s) @ map (\<lambda>f. join_lines (body f)) fences \<and>
     map index (blocks (scan i (concat (map fenced_lines fences)) s)) =
       map index (blocks s) @ [blockIndex s ..< blockIndex s + length fences] \<and>
     blockIndex (scan i (concat (map fenced_lines fences)) s) = blockIndex s + length fences"
  using assms
proof (induction fences arbitrary: i s)
  case Nil
  then show ?case by simp
next
  case (Cons f fences)
  let ?s1 = "scan i (fenced_lines f) s"
  from Cons.prems have wf: "well_formed f" and wfs: "list_all well_formed fences" by simp_all
  note s1 = scan_fenced[OF Cons.prems(1) wf, of i]
  have out: "\<not> inMermaidBlock ?s1" by (simp add: s1)
  note IH = Cons.IH[OF out wfs, of "i + length (fenced_lines f)"]
  have bi: "blockIndex ?s1 = Suc (blockIndex s)" by (simp add: s1)
  have bl: "blocks ?s1 = blocks s @ [\<lparr>code = join_lines (body f), lineStart = Suc (i + length (before f)),
         lineEnd = Suc (i + length (before f) + length (body f)), index = blockIndex s\<rparr>]"
    by (simp add: s1)
  have up: "[blockIndex s ..< Suc (blockIndex s + length fences)] =
      blockIndex s # [Suc (blockIndex s) ..< Suc (blockIndex s + length fences)]"
    by (rule upt_conv_Cons) simp
  show ?case
    using IH by (simp add: scan_append bi bl up del: upt_Suc)
qed

lemma open_markers_append: "open_markers (xs @ ys) = open_markers xs + open_markers ys"
  by (simp add: open_markers_def)

lemma open_markers_none: "\<forall>l\<in>set ls. trim l \<noteq> fence_open \<Longrightarrow> open_markers ls = 0"
  by (induction ls) (auto simp: open_markers_def)

lemma open_markers_fenced: "well_formed f \<Longrightarrow> open_markers (fenced_lines f) = 1"
  by (simp add: fenced_lines_def open_markers_append well_formed_def open_markers_none fence_open_neq_close[symmetric])
   (simp add: open_markers_def fence_open_neq_close[symmetric])

lemma open_markers_fenced_list:
  "list_all well_formed fences \<Longrightarrow> open_markers (concat (map fenced_lines fences)) = length fences"
proof (induction fences)
  case Nil
  show ?case by (simp add: open_markers_def)
next
  case (Cons f fences)
  then show ?case by (simp add: open_markers_append open_markers_fenced)
qed

lemma extract_lines_well_formed:
  assumes "list_all well_formed fences" "\<forall>l\<in>set rest. trim l \<noteq> fence_open"
  shows "map code (extract_lines (concat (map fenced_lines fences) @ rest)) = map (\<lambda>f. join_lines (body f)) fences"
    and "map index (extract_lines (concat (map fenced_lines fences) @ rest)) = [0..<length fences]"
proof -
  have o: "\<not> inMermaidBlock initial" by (simp add: initial_def)
  note a = scan_fenced_list[OF o assms(1), of 0]
  show "map code (extract_lines (concat (map fenced_lines fences) @ rest)) = map (\<lambda>f. join_lines (body f)) fences"
    using a assms(2) by (simp add: extract_lines_def scan_append scan_outside) (simp add: initial_def)
  show "map index (extract_lines (concat (map fenced_lines fences) @ rest)) = [0..<length fences]"
    using a assms(2) by (simp add: extract_lines_def scan_append scan_outside) (simp add: initial_def)
qed

lemma extract_lines_dangling:
  assumes "trim op = fence_open" "\<forall>l\<in>set rest. trim l \<noteq> fence_open \<and> trim l \<noteq> fence_close"
  shows "extract_lines (ls @ op # rest) = extract_lines ls"
proof -
  define s where "s = scan 0 ls initial"
  define s1 where "s1 = s\<lparr>inMermaidBlock := True, blockStart := Suc (length ls), blockContent := []\<rparr>"
  have 1: "loop_body s (length ls) op = s1"
    using assms(1) by (simp add: loop_body_def s1_def)
  have "inMermaidBlock s1" by (simp add: s1_def)
  then have 2: "scan (Suc (length ls)) rest s1 = s1\<lparr>blockContent := blockContent s1 @ rest\<rparr>"
    using assms(2) by (intro scan_content) simp_all
  show ?thesis
    by (simp add: extract_lines_def scan_append s_def[symmetric] 1 2) (simp add: s1_def)
qed

lemmas extract_eval = extractMermaidBlocks_def extract_lines_def split_lines_def loop_body_def
  trim_def is_space_def fence_open_def fence_close_def initial_def

subsection \<open>Lines inside an open block\<close>

text \<open>
  Claim C2 says that inside an open block a line whose trimmed content is \<open>```mermaid\<close>
  is ordinary content. The loop tests for the open marker first, whatever the state: in
  \<^const>\<open>nested_document\<close> the second marker, on line 3, drops the line \<open>A\<close> gathered
  so far and moves the start of the block, so the one block has code \<open>B\<close> and
  \<open>lineStart = 3\<close>, not the three lines after the first marker.
\<close>

theorem nested_open_fence_counterexample:
  "extractMermaidBlocks nested_document =
     [\<lparr>code = ''B'', lineStart = 3, lineEnd = 4, index = 0\<rparr>] \<and>
   scan 0 [''```mermaid'', ''A''] initial =
     initial\<lparr>inMermaidBlock := True, blockStart := 1, blockContent := [''A'']\<rparr> \<and>
   loop_body (initial\<lparr>inMermaidBlock := True, blockStart := 1, blockContent := [''A'']\<rparr>) 2
       ''```mermaid'' \<noteq>
     initial\<lparr>inMermaidBlock := True, blockStart := 1,
       blockContent := [''A'', ''```mermaid'']\<rparr>"
  by (simp add: extract_eval nested_document_def)

text \<open>
  Claim C2, amended: while the extractor is inside an open block, every run of lines whose
  trimmed content is neither \<open>```\<close> nor \<open>```mermaid\<close> is appended verbatim to the
  accumulated content, and nothing else changes; a line whose trimmed content is
  \<open>```mermaid\<close> restarts the block: the accumulated content is emptied and the start
  position becomes the number of that line.
\<close>

theorem inside_block_lines:
  "(inMermaidBlock s \<and> (\<forall>l\<in>set ls. trim l \<noteq> fence_close \<and> trim l \<noteq> fence_open) \<longrightarrow>
      scan i ls s = s\<lparr>blockContent := blockContent s @ ls\<rparr>) \<and>
   (trim line = fence_open \<longrightarrow>
      loop_body s i line = s\<lparr>inMermaidBlock := True, blockStart := i + 1, blockContent := []\<rparr>)"
proof (intro conjI impI)
  assume "inMermaidBlock s \<and> (\<forall>l\<in>set ls. trim l \<noteq> fence_close \<and> trim l \<noteq> fence_open)"
  then show "scan i ls s = s\<lparr>blockContent := blockContent s @ ls\<rparr>"
  proof (induction ls arbitrary: i s)
    case Nil
    show ?case by simp
  next
    case (Cons l ls)
    then have step: "loop_body s i l = s\<lparr>blockContent := blockContent s @ [l]\<rparr>"
      by (simp add: loop_body_def)
    have "inMermaidBlock (s\<lparr>blockContent := blockContent s @ [l]\<rparr>) \<and>
        (\<forall>l\<in>set ls. trim l \<noteq> fence_close \<and> trim l \<noteq> fence_open)"
      using Cons.prems by simp
    from Cons.IH[OF this] show ?case by (simp add: step)
  qed
next
  assume "trim line = fence_open"
  then show "loop_body s i line =
      s\<lparr>inMermaidBlock := True, blockStart := i + 1, blockContent := []\<rparr>"
    by (simp add: loop_body_def)
qed

theorem inside_block_lines_witness:
  "inMermaidBlock (initial\<lparr>inMermaidBlock := True, blockStart := 1, blockContent := [''A'']\<rparr>) \<and>
   scan 2 [''  B'', '''', ''``` mermaid'']
       (initial\<lparr>inMermaidBlock := True, blockStart := 1, blockContent := [''A'']\<rparr>) =
     initial\<lparr>inMermaidBlock := True, blockStart := 1,
       blockContent := [''A'', ''  B'', '''', ''``` mermaid'']\<rparr> \<and>
   trim '' ```mermaid'' = fence_open \<and>
   loop_body (initial\<lparr>inMermaidBlock := True, blockStart := 1, blockContent := [''A'']\<rparr>) 2
       '' ```mermaid'' =
     initial\<lparr>inMermaidBlock := True, blockStart := 3, blockContent := []\<rparr>"
proof -
  let ?s = "initial\<lparr>inMermaidBlock := True, blockStart := 1, blockContent := [''A'']\<rparr>"
  have a: "inMermaidBlock ?s" by simp
  have b: "\<forall>l\<in>set [''  B'', '''', ''``` mermaid'']. trim l \<noteq> fence_close \<and> trim l \<noteq> fence_open"
    by (simp add: trim_def is_space_def fence_open_def fence_close_def)
  have c: "trim '' ```mermaid'' = fence_open"
    by (simp add: trim_def is_space_def fence_open_def)
  show ?thesis
    using inside_block_lines[where s = ?s and ls = "[''  B'', '''', ''``` mermaid'']" and i = 2
        and line = "'' ```mermaid''"] a b c
    by simp
qed

subsection \<open>Line numbers\<close>

text \<open>
  Claim C3 says that \<open>lineStart\<close> is the number of the line after the opening fence and
  \<open>lineEnd\<close> the number of the closing fence, counting from 1. In the document of three
  lines \<open>```mermaid\<close>, \<open>A\<close>, \<open>```\<close> the line after the opening fence is line 2 and the
  closing fence is line 3, but the block has \<open>lineStart = 1\<close> and \<open>lineEnd = 2\<close>.
\<close>

theorem line_numbers_counterexample:
  "extractMermaidBlocks ''```mermaid\<newline>A\<newline>```'' =
     [\<lparr>code = ''A'', lineStart = 1, lineEnd = 2, index = 0\<rparr>] \<and>
   split_lines ''```mermaid\<newline>A\<newline>```'' = [''```mermaid'', ''A'', ''```'']"
  by (simp add: extract_eval)

text \<open>
  Claim C3, amended: for every extracted block, \<open>lineStart\<close> is the 1-based number of the
  opening fence line (\<open>blockStart = i + 1\<close> at the fence itself), \<open>lineEnd\<close> is the 0-based
  index of the closing fence line, that is the 1-based number of the line before it, the
  code is the lines between the two fences, and \<open>lineStart \<le> lineEnd\<close>.
\<close>

theorem line_numbers:
  "b \<in> set (extractMermaidBlocks content) \<Longrightarrow>
     1 \<le> lineStart b \<and> lineStart b \<le> lineEnd b \<and> lineEnd b < length (split_lines content) \<and>
     trim (split_lines content ! (lineStart b - 1)) = fence_open \<and>
     trim (split_lines content ! lineEnd b) = fence_close \<and>
     code b = join_lines (take (lineEnd b - lineStart b) (drop (lineStart b) (split_lines content)))"
  using extract_lines_placed[of "split_lines content"]
  by (simp add: extractMermaidBlocks_def list_all_iff placed_def)

theorem line_numbers_witness:
  "\<lparr>code = ''graph TD\<newline>A-->B'', lineStart = 2, lineEnd = 4, index = 0\<rparr>
     \<in> set (extractMermaidBlocks valid_document) \<and>
   trim (split_lines valid_document ! (2 - 1)) = fence_open \<and>
   trim (split_lines valid_document ! 4) = fence_close \<and>
   ''graph TD\<newline>A-->B'' = join_lines (take (4 - 2) (drop 2 (split_lines valid_document)))"
proof -
  let ?b = "\<lparr>code = ''graph TD\<newline>A-->B'', lineStart = 2, lineEnd = 4, index = 0\<rparr>"
  have m: "?b \<in> set (extractMermaidBlocks valid_document)"
    by (simp add: extract_eval valid_document_def)
  from line_numbers[OF m] m show ?thesis by simp
qed



subsection \<open>Counting blocks\<close>

text \<open>
  Claim C9: a document made of \<open>N\<close> well-formed fences (each opened and closed, with no
  marker among its content lines) and of lines outside them that are not open markers
  yields exactly \<open>N\<close> blocks, with \<open>index\<close> 0 to \<open>N - 1\<close>, in document order; and when
  the document goes on with one more open marker that is never closed, that fence is
  dropped without an error: the blocks are the same \<open>N\<close>, one fewer than the open markers.
\<close>

theorem well_formed_count:
  assumes "list_all well_formed fences"
    and "\<forall>l\<in>set rest. trim l \<noteq> fence_open"
    and "trim op = fence_open"
    and "\<forall>l\<in>set tail. trim l \<noteq> fence_open \<and> trim l \<noteq> fence_close"
  shows
   "(split_lines content = concat (map fenced_lines fences) @ rest \<longrightarrow>
       length (extractMermaidBlocks content) = length fences \<and>
       map index (extractMermaidBlocks content) = [0..<length fences] \<and>
       map code (extractMermaidBlocks content) = map (\<lambda>f. join_lines (body f)) fences \<and>
       open_markers (split_lines content) = length fences) \<and>
    (split_lines content = concat (map fenced_lines fences) @ rest @ op # tail \<longrightarrow>
       length (extractMermaidBlocks content) = length fences \<and>
       map index (extractMermaidBlocks content) = [0..<length fences] \<and>
       map code (extractMermaidBlocks content) = map (\<lambda>f. join_lines (body f)) fences \<and>
       length (extractMermaidBlocks content) + 1 = open_markers (split_lines content))"
proof -
  let ?ls = "concat (map fenced_lines fences) @ rest"
  note wf = extract_lines_well_formed[OF assms(1,2)]
  have len: "length (extract_lines ?ls) = length fences"
    using arg_cong[OF wf(2), of length] by simp
  have om: "open_markers ?ls = length fences"
    using assms(1,2) by (simp add: open_markers_append open_markers_fenced_list open_markers_none)
  have dg: "extract_lines (?ls @ op # tail) = extract_lines ?ls"
    using assms(3,4) by (rule extract_lines_dangling)
  have "\<forall>l\<in>set tail. trim l \<noteq> fence_open" using assms(4) by simp
  then have om2: "open_markers (?ls @ op # tail) = length fences + 1"
    using om assms(3) open_markers_none[of tail]
    by (simp add: open_markers_append[of ?ls]) (simp add: open_markers_def)
  show ?thesis
    using wf len om dg om2 by (simp add: extractMermaidBlocks_def)
qed

theorem well_formed_count_witness:
  "map index (extractMermaidBlocks ''intro\<newline>```mermaid\<newline>graph TD\<newline>```\<newline>```mermaid\<newline>```\<newline>```'') = [0, 1] \<and>
   map code (extractMermaidBlocks ''intro\<newline>```mermaid\<newline>graph TD\<newline>```\<newline>```mermaid\<newline>```\<newline>```'') = [''graph TD'', ''''] \<and>
   open_markers (split_lines ''intro\<newline>```mermaid\<newline>graph TD\<newline>```\<newline>```mermaid\<newline>```\<newline>```'') = 2 \<and>
   length (extractMermaidBlocks ''intro\<newline>```mermaid\<newline>graph TD\<newline>```\<newline>```mermaid\<newline>```\<newline>```\<newline>  ```mermaid\<newline>pie'') = 2 \<and>
   open_markers (split_lines ''intro\<newline>```mermaid\<newline>graph TD\<newline>```\<newline>```mermaid\<newline>```\<newline>```\<newline>  ```mermaid\<newline>pie'') = 3"
proof -
  let ?fences = "[\<lparr>before = [''intro''], opener = ''```mermaid'', body = [''graph TD''], closer = ''```''\<rparr>,
                  \<lparr>before = [], opener = ''```mermaid'', body = [], closer = ''```''\<rparr>]"
  let ?closed = "''intro\<newline>```mermaid\<newline>graph TD\<newline>```\<newline>```mermaid\<newline>```\<newline>```''"
  let ?dangling = "''intro\<newline>```mermaid\<newline>graph TD\<newline>```\<newline>```mermaid\<newline>```\<newline>```\<newline>  ```mermaid\<newline>pie''"
  have 1: "list_all well_formed ?fences"
    by (simp add: well_formed_def trim_def is_space_def fence_open_def fence_close_def)
  have 2: "\<forall>l\<in>set [''```'']. trim l \<noteq> fence_open"
    by (simp add: trim_def is_space_def fence_open_def)
  have 3: "trim ''  ```mermaid'' = fence_open"
    by (simp add: trim_def is_space_def fence_open_def)
  have 4: "\<forall>l\<in>set [''pie'']. trim l \<noteq> fence_open \<and> trim l \<noteq> fence_close"
    by (simp add: trim_def is_space_def fence_open_def fence_close_def)
  have 5: "split_lines ?closed = concat (map fenced_lines ?fences) @ [''```'']"
    by (simp add: split_lines_def fenced_lines_def)
  have 6: "split_lines ?dangling =
      concat (map fenced_lines ?fences) @ [''```''] @ ''  ```mermaid'' # [''pie'']"
    by (simp add: split_lines_def fenced_lines_def)
  from well_formed_count[OF 1 2 3 4, of ?closed] 5
    well_formed_count[OF 1 2 3 4, of ?dangling] 6
  show ?thesis by simp
qed

subsection \<open>Round trip\<close>

text \<open>
  Claim C10: for every string \<open>S\<close> none of whose lines has trimmed content \<open>```\<close> or
  \<open>```mermaid\<close>, the document made of the line \<open>```mermaid\<close>, the lines of \<open>S\<close> and the
  line \<open>```\<close>, joined by newlines, yields exactly one block, and its code is \<open>S\<close>.
\<close>

theorem extract_roundtrip:
  assumes "\<forall>l\<in>set (split_lines S). trim l \<noteq> fence_close \<and> trim l \<noteq> fence_open"
  shows "extractMermaidBlocks (fence_open @ CHR 0x0A # S @ CHR 0x0A # fence_close) =
    [\<lparr>code = S, lineStart = 1, lineEnd = length (split_lines S) + 1, index = 0\<rparr>]"
proof -
  define s1 where "s1 = initial\<lparr>inMermaidBlock := True, blockStart := Suc 0, blockContent := []\<rparr>"
  have 1: "loop_body initial 0 fence_open = s1"
    by (simp add: loop_body_def trim_fence_open s1_def)
  have "inMermaidBlock s1" by (simp add: s1_def)
  then have 2: "scan (Suc 0) (split_lines S) s1 = s1\<lparr>blockContent := blockContent s1 @ split_lines S\<rparr>"
    using assms by (intro scan_content) simp_all
  have 3: "scan 0 (fence_open # split_lines S @ [fence_close]) initial =
      loop_body (s1\<lparr>blockContent := blockContent s1 @ split_lines S\<rparr>)
        (Suc (length (split_lines S))) fence_close"
    by (simp add: 1 scan_append 2)
  show ?thesis
    unfolding extractMermaidBlocks_def extract_lines_def split_lines_fenced 3
    by (simp add: loop_body_def trim_fence_close fence_open_neq_close[symmetric]
        join_split_lines initial_def s1_def)
qed

theorem extract_roundtrip_witness:
  "extractMermaidBlocks
     (fence_open @ CHR 0x0A # ''graph TD\<newline>  A --> B\<newline>'' @ CHR 0x0A # fence_close) =
    [\<lparr>code = ''graph TD\<newline>  A --> B\<newline>'', lineStart = 1, lineEnd = 4, index = 0\<rparr>]"
proof -
  have sp: "split_lines ''graph TD\<newline>  A --> B\<newline>'' = [''graph TD'', ''  A --> B'', '''']"
    by (simp add: split_lines_def)
  have h: "\<forall>l\<in>set (split_lines ''graph TD\<newline>  A --> B\<newline>'').
      trim l \<noteq> fence_close \<and> trim l \<noteq> fence_open"
    unfolding sp by (simp add: trim_def is_space_def fence_open_def fence_close_def)
  from extract_roundtrip[OF h] show ?thesis by (simp add: sp)
qed



section \<open>Properties of the diagram type\<close>

lemma detect_unknown:
  "src = [] \<or> \<not> is_word_char (hd src) \<Longrightarrow> detect_with tm src = JsString ''unknown''"
  by (cases src) (auto simp: detect_with_def)

lemma map_of_typeMap_None:
  "w \<notin> set (map fst typeMap) \<Longrightarrow> map_of typeMap w = None"
  by (simp add: map_of_eq_None_iff)

lemma typeMap_keys: "map fst typeMap' = map fst typeMap"
  by (simp add: typeMap_def typeMap'_def)

lemma map_of_typeMap'_None:
  "w \<notin> set (map fst typeMap) \<Longrightarrow> map_of typeMap' w = None"
  using typeMap_keys by (simp add: map_of_eq_None_iff) (metis list.set_map)

text \<open>
  Claim C7 says that code beginning with \<open>graph\<close> maps to \<open>flowchart\<close> and that every
  input with no leading alphabetic token maps to \<open>unknown\<close>. The pattern \<open>\w+\<close> also
  matches digits and the underscore, and the table is consulted with the whole run: the
  code \<open>123 abc\<close> starts with no letter and yet has type \<open>123\<close>, and the code \<open>graphs\<close>
  has type \<open>graphs\<close>.
\<close>

theorem detect_type_counterexample:
  "\<not> is_alpha (hd ''123 abc'') \<and> detectDiagramType ''123 abc'' = JsString ''123'' \<and>
   detectDiagramType ''graphs'' = JsString ''graphs''"
  by (simp add: is_alpha_def detectDiagramType_def detect_with_def is_word_char_def
      lookup_or_self_def typeMap_def object_prototype_names_def)

text \<open>
  Claim C7, amended: the type is read from the longest run of word characters (letters,
  digits, underscore) at the very start of the code, with no tolerance for leading white
  space. When that run is exactly \<open>sequenceDiagram\<close> the type is \<open>sequence\<close>; when it is
  exactly \<open>graph\<close> the type is \<open>flowchart\<close>; a run that is neither a key of the table
  nor the name of a property inherited from \<open>Object.prototype\<close> is kept literally; and
  every input that does not start with a word character has type \<open>unknown\<close>. This holds
  for the table of \<open>mermaid-check.mjs\<close> and for the table of the pipeline scripts.
\<close>

theorem detect_type:
  "(takeWhile is_word_char src = ''sequenceDiagram'' \<longrightarrow>
      detectDiagramType src = JsString ''sequence'' \<and> detectDiagramType' src = JsString ''sequence'') \<and>
   (takeWhile is_word_char src = ''graph'' \<longrightarrow>
      detectDiagramType src = JsString ''flowchart'' \<and> detectDiagramType' src = JsString ''flowchart'') \<and>
   (takeWhile is_word_char src \<noteq> [] \<and>
    takeWhile is_word_char src \<notin> set (map fst typeMap) \<and>
    takeWhile is_word_char src \<notin> set object_prototype_names \<longrightarrow>
      detectDiagramType src = JsString (takeWhile is_word_char src) \<and>
      detectDiagramType' src = JsString (takeWhile is_word_char src)) \<and>
   (src = [] \<or> \<not> is_word_char (hd src) \<longrightarrow>
      detectDiagramType src = JsString ''unknown'' \<and> detectDiagramType' src = JsString ''unknown'')"
proof -
  have a: "takeWhile is_word_char src = ''sequenceDiagram'' \<Longrightarrow>
      detectDiagramType src = JsString ''sequence'' \<and> detectDiagramType' src = JsString ''sequence''"
    by (simp add: detectDiagramType_def detectDiagramType'_def detect_with_def lookup_or_self_def
        typeMap_def typeMap'_def)
  have b: "takeWhile is_word_char src = ''graph'' \<Longrightarrow>
      detectDiagramType src = JsString ''flowchart'' \<and> detectDiagramType' src = JsString ''flowchart''"
    by (simp add: detectDiagramType_def detectDiagramType'_def detect_with_def lookup_or_self_def
        typeMap_def typeMap'_def)
  have c: "takeWhile is_word_char src \<noteq> [] \<Longrightarrow>
      takeWhile is_word_char src \<notin> set (map fst typeMap) \<Longrightarrow>
      takeWhile is_word_char src \<notin> set object_prototype_names \<Longrightarrow>
      detectDiagramType src = JsString (takeWhile is_word_char src) \<and>
      detectDiagramType' src = JsString (takeWhile is_word_char src)"
    using map_of_typeMap_None[of "takeWhile is_word_char src"]
      map_of_typeMap'_None[of "takeWhile is_word_char src"]
    by (simp add: detectDiagramType_def detectDiagramType'_def detect_with_def lookup_or_self_def)
  have d: "src = [] \<or> \<not> is_word_char (hd src) \<Longrightarrow>
      detectDiagramType src = JsString ''unknown'' \<and> detectDiagramType' src = JsString ''unknown''"
    by (simp add: detectDiagramType_def detectDiagramType'_def detect_unknown)
  from a b c d show ?thesis by blast
qed

theorem detect_type_witness:
  "detectDiagramType ''sequenceDiagram\<newline>A->>B: hi'' = JsString ''sequence'' \<and>
   detectDiagramType' ''graph TD'' = JsString ''flowchart'' \<and>
   detectDiagramType ''gantt\<newline>title x'' = JsString ''gantt'' \<and>
   detectDiagramType '' graph TD'' = JsString ''unknown''"
proof -
  have 1: "takeWhile is_word_char ''sequenceDiagram\<newline>A->>B: hi'' = ''sequenceDiagram''"
    by (simp add: is_word_char_def)
  have 2: "takeWhile is_word_char ''graph TD'' = ''graph''"
    by (simp add: is_word_char_def)
  have 3: "takeWhile is_word_char ''gantt\<newline>title x'' = ''gantt''"
    by (simp add: is_word_char_def)
  have 4: "takeWhile is_word_char ''gantt\<newline>title x'' \<noteq> [] \<and>
      takeWhile is_word_char ''gantt\<newline>title x'' \<notin> set (map fst typeMap) \<and>
      takeWhile is_word_char ''gantt\<newline>title x'' \<notin> set object_prototype_names"
    unfolding 3 by (simp add: typeMap_def object_prototype_names_def)
  have 5: "'' graph TD'' = [] \<or> \<not> is_word_char (hd '' graph TD'')"
    by (simp add: is_word_char_def)
  have a: "detectDiagramType ''sequenceDiagram\<newline>A->>B: hi'' = JsString ''sequence''"
    using detect_type[of "''sequenceDiagram\<newline>A->>B: hi''"] 1 by blast
  have b: "detectDiagramType' ''graph TD'' = JsString ''flowchart''"
    using detect_type[of "''graph TD''"] 2 by blast
  have "detectDiagramType ''gantt\<newline>title x'' = JsString (takeWhile is_word_char ''gantt\<newline>title x'')"
    using detect_type[of "''gantt\<newline>title x''"] 4 by blast
  then have c: "detectDiagramType ''gantt\<newline>title x'' = JsString ''gantt''"
    unfolding 3 .
  have d: "detectDiagramType '' graph TD'' = JsString ''unknown''"
    using detect_type[of "'' graph TD''"] 5 by blast
  from a b c d show ?thesis by blast
qed


section \<open>Properties of the block validator\<close>

text \<open>
  Claim C4: for every code string the validator returns a result and never throws, whatever
  the parser does: when the parser accepts, the result is valid with no error; when the
  parser throws, the result is invalid and its error is the message of the thrown value,
  or its string form when the message is empty; and, the parser's failures being
  descriptive (a message or a string form that is not empty), exactly one of
  (valid, no error) and (invalid, non-empty error) holds.
\<close>

theorem validate_result:
  "\<exists>r. validate clk parse src k = (Inr r, k + 2) \<and>
     (parse src = Inr () \<longrightarrow> valid r \<and> error r = None) \<and>
     (\<forall>e. parse src = Inl e \<longrightarrow>
        \<not> valid r \<and> error r = Some (if message e \<noteq> [] then message e else string_form e)) \<and>
     ((\<forall>e. parse src = Inl e \<longrightarrow> message e \<noteq> [] \<or> string_form e \<noteq> []) \<longrightarrow>
        ((valid r \<and> error r = None) \<noteq> (\<not> valid r \<and> (\<exists>m. error r = Some m \<and> m \<noteq> []))))"
proof (cases "parse src")
  case (Inl e)
  let ?r = "\<lparr>valid = False, executionTime = clk (k + 1) - clk k,
             error = Some (if message e \<noteq> [] then message e else string_form e)\<rparr>"
  have "validate clk parse src k = (Inr ?r, k + 2)"
    using Inl by (simp add: validate_def)
  moreover have "\<not> valid ?r" by simp
  moreover have "error ?r = Some (if message e \<noteq> [] then message e else string_form e)"
    by simp
  ultimately show ?thesis using Inl by auto
next
  case (Inr u)
  let ?r = "\<lparr>valid = True, executionTime = clk (k + 1) - clk k, error = None\<rparr>"
  have "validate clk parse src k = (Inr ?r, k + 2)"
    using Inr by (simp add: validate_def)
  moreover have "valid ?r \<and> error ?r = None" by simp
  ultimately show ?thesis using Inr by auto
qed

theorem validate_result_witness:
  "validate (clock example_env) example_parser ''graph TD'' 0 =
     (Inr \<lparr>valid = True, executionTime = 5, error = None\<rparr>, 2) \<and>
   validate (clock example_env) example_parser ''oops'' 4 =
     (Inr \<lparr>valid = False, executionTime = 5, error = Some ''Parse error on line 1''\<rparr>, 6)"
proof -
  have 1: "example_parser ''graph TD'' = Inr ()" by (simp add: example_parser_def)
  have 2: "example_parser ''oops'' =
      Inl \<lparr>message = ''Parse error on line 1'', string_form = ''Error: Parse error on line 1''\<rparr>"
    by (simp add: example_parser_def)
  from validate_result[of "clock example_env" example_parser "''graph TD''" 0]
  obtain r where r: "validate (clock example_env) example_parser ''graph TD'' 0 = (Inr r, 0 + 2)"
    "valid r" "error r = None" using 1 by auto
  from validate_result[of "clock example_env" example_parser "''oops''" 4]
  obtain q where q: "validate (clock example_env) example_parser ''oops'' 4 = (Inr q, 4 + 2)"
    "\<not> valid q" "error q = Some ''Parse error on line 1''" using 2 by auto
  have "executionTime r = 5" "executionTime q = 5"
    using r(1) q(1) by (auto simp: validate_def example_env_def 1 2)
  with r q show ?thesis by (cases r, cases q) auto
qed


section \<open>Properties of \<open>validateMarkdownFile\<close>\<close>

subsection \<open>Indices of the extracted blocks\<close>

lemma loop_body_index:
  "map index (blocks s) = [0..<blockIndex s] \<Longrightarrow>
   map index (blocks (loop_body s i line)) = [0..<blockIndex (loop_body s i line)]"
  by (simp add: loop_body_def)

lemma scan_index:
  "map index (blocks s) = [0..<blockIndex s] \<Longrightarrow>
   map index (blocks (scan i ls s)) = [0..<blockIndex (scan i ls s)]"
proof (induction ls arbitrary: i s)
  case Nil
  then show ?case by simp
next
  case (Cons l ls)
  from Cons.IH[OF loop_body_index[OF Cons.prems]] show ?case by simp
qed

lemma extract_index:
  "map index (extractMermaidBlocks content) = [0..<length (extractMermaidBlocks content)]"
proof -
  have "map index (blocks initial) = [0..<blockIndex initial]" by (simp add: initial_def)
  from scan_index[OF this, of 0 "split_lines content"]
  have e: "map index (extractMermaidBlocks content) =
      [0..<blockIndex (scan 0 (split_lines content) initial)]"
    by (simp add: extractMermaidBlocks_def extract_lines_def)
  have "length (map index (extractMermaidBlocks content)) =
      length [0..<blockIndex (scan 0 (split_lines content) initial)]"
    by (simp only: e)
  then have "blockIndex (scan 0 (split_lines content) initial) = length (extractMermaidBlocks content)"
    by simp
  with e show ?thesis by simp
qed


subsection \<open>The loop over the blocks\<close>

lemma validate_Inr: "\<exists>r. validate clk parse src k = (Inr r, k + 2)"
  by (cases "parse src") (auto simp: validate_def)

lemma validate_blocks_inv:
  "tallied acc \<Longrightarrow>
   \<exists>r. validate_blocks E p bs acc w = (Inr r, w\<lparr>readings := readings w + 2 * length bs\<rparr>) \<and>
       tallied r \<and>
       map extracted (diagrams r) = map extracted (diagrams acc) @ bs \<and>
       totalDiagrams r = totalDiagrams acc \<and> filePath r = filePath acc"
proof (induction bs arbitrary: acc w)
  case Nil
  then show ?case by simp
next
  case (Cons b bs)
  obtain res where v: "validate (clock E) p (code b) (readings w) = (Inr res, readings w + 2)"
    using validate_Inr by blast
  let ?acc = "acc\<lparr>diagrams := diagrams acc @
                 [\<lparr>extracted = b, diagramType = detectDiagramType (code b), validation = res\<rparr>],
               totalTime := totalTime acc + executionTime res,
               validCount := (if valid res then validCount acc + 1 else validCount acc),
               invalidCount :=
                 (if valid res then invalidCount acc else invalidCount acc + 1)\<rparr>"
  have t: "tallied ?acc" using Cons.prems by (simp add: tallied_def)
  from Cons.IH[OF t, of "w\<lparr>readings := readings w + 2\<rparr>"]
  show ?case by (simp add: v)
qed

lemma validateMarkdownFile_cases:
  "(\<exists>e. readFileSync w path = Inl e \<and> validateMarkdownFile E path p w = (Inl e, w)) \<or>
   (\<exists>content r. readFileSync w path = Inr content \<and>
      validateMarkdownFile E path p w =
        (Inr r, w\<lparr>readings := readings w + 2 * length (extractMermaidBlocks content)\<rparr>) \<and>
      tallied r \<and> map extracted (diagrams r) = extractMermaidBlocks content \<and>
      totalDiagrams r = length (extractMermaidBlocks content) \<and> filePath r = path)"
proof (cases "readFileSync w path")
  case (Inl e)
  then show ?thesis by (simp add: validateMarkdownFile_def)
next
  case (Inr content)
  let ?acc = "\<lparr>validCount = 0, invalidCount = 0, totalTime = 0, filePath = path,
               totalDiagrams = length (extractMermaidBlocks content), diagrams = []\<rparr>"
  have "tallied ?acc" by (simp add: tallied_def)
  from validate_blocks_inv[OF this, of E p "extractMermaidBlocks content" w]
  show ?thesis using Inr by (auto simp: validateMarkdownFile_def)
qed

lemma sum_length_filter:
  "length (filter P xs) + length (filter (\<lambda>x. \<not> P x) xs) = length xs"
  by (induction xs) auto


subsection \<open>Example runs\<close>

lemmas run_eval = validateMarkdownFile_def readFileSync_def validate_def detectDiagramType_def
  detect_with_def lookup_or_self_def typeMap_def object_prototype_names_def is_word_char_def
  example_env_def example_world_def example_parser_def

lemma valid_blocks: "extractMermaidBlocks valid_document =
   [\<lparr>code = ''graph TD\<newline>A-->B'', lineStart = 2, lineEnd = 4, index = 0\<rparr>]"
  by (simp add: extract_eval valid_document_def)

lemma invalid_blocks: "extractMermaidBlocks invalid_document =
   [\<lparr>code = ''oops'', lineStart = 1, lineEnd = 2, index = 0\<rparr>]"
  by (simp add: extract_eval invalid_document_def)

lemma plain_blocks: "extractMermaidBlocks plain_document = []"
  by (simp add: extract_eval plain_document_def)

section \<open>Properties of the pipeline of \<open>check.mjs\<close>\<close>

lemma writeFileSync_trace: "writeFileSync w path content = Inr w' \<Longrightarrow> trace w' = trace w"
  by (auto simp: writeFileSync_def split: fs_entry.splits)

lemma mkdirSync_trace: "mkdirSync w dir = Inr w' \<Longrightarrow> trace w' = trace w"
  by (auto simp: mkdirSync_def split: fs_entry.splits)

lemma save_blocks_trace:
  "save_blocks E nm dir bs acc w = (x, w') \<Longrightarrow> trace w' = trace w"
proof (induction bs arbitrary: acc w)
  case Nil
  then show ?case by simp
next
  case (Cons b bs)
  then show ?case
    by (auto simp: Let_def split: sum.splits dest: writeFileSync_trace)
qed

lemma save_blocks_index:
  "save_blocks E nm dir bs acc w = (Inr results, w') \<Longrightarrow>
   map index' results = map index' acc @ map index bs"
proof (induction bs arbitrary: acc w)
  case Nil
  then show ?case by simp
next
  case (Cons b bs)
  then show ?case
    by (auto simp: Let_def split: sum.splits)
qed

lemma extract_body_trace: "extract_body E mdFile dir w = (x, w') \<Longrightarrow> trace w' = trace w"
  by (auto simp: extract_body_def Let_def split: sum.splits if_splits prod.splits
      dest!: mkdirSync_trace save_blocks_trace)

lemma extract_main_trace: "extract_main E args w = (x, w') \<Longrightarrow> trace w' = trace w"
  by (auto simp: extract_main_def Let_def split: sum.splits if_splits prod.splits
      dest: extract_body_trace)

lemma extract_body_json:
  assumes "extract_body E mdFile dir w = (Inr (Json out, st), w')"
  shows "st = 0 \<and> totalBlocks' out = length (blocks' out) \<and> totalBlocks' out \<noteq> 0 \<and>
     map index' (blocks' out) = [0..<totalBlocks' out] \<and> sourceFile' out = mdFile \<and>
     outputDir' out = dir"
proof -
  from assms obtain content w1 results where
    c: "readFileSync w mdFile = Inr content" and
    n: "length (extractMermaidBlocks content) \<noteq> 0" and
    s: "save_blocks E (path_stem E mdFile) dir (extractMermaidBlocks content) [] w1 = (Inr results, w')" and
    o: "out = \<lparr>sourceFile' = mdFile, outputDir' = dir,
                 totalBlocks' = length (extractMermaidBlocks content), blocks' = results\<rparr>" and
    st: "st = 0"
    by (auto simp: extract_body_def Let_def split: sum.splits if_splits prod.splits)
  from save_blocks_index[OF s] have "map index' results = map index (extractMermaidBlocks content)"
    by simp
  then have i: "map index' results = [0..<length (extractMermaidBlocks content)]"
    using extract_index by simp
  from arg_cong[OF i, of length] have "length results = length (extractMermaidBlocks content)"
    by simp
  with i n o st show ?thesis by simp
qed

lemma extractBlocks_ok:
  assumes "extractBlocks E mdFile dir w = (Inr out, w')"
  shows "totalBlocks' out = length (blocks' out) \<and> totalBlocks' out \<noteq> 0 \<and>
     map index' (blocks' out) = [0..<totalBlocks' out] \<and> trace w' = trace w"
proof -
  obtain r w1 where m: "extract_main E [mdFile, dir] w = (r, w1)"
    by (cases "extract_main E [mdFile, dir] w")
  from assms m have w1: "w1 = w'" and ex: "\<exists>st. r = (Json out, st)"
    by (auto simp: extractBlocks_def execSync_def JSON_parse_def split: sum.splits if_splits prod.splits stdout.splits)
  from ex obtain st where r: "r = (Json out, st)" by blast
  from m r obtain w0 where b: "extract_body E mdFile (output_dir [mdFile, dir]) w = (Inr (Json out, st), w1)"
    by (auto simp: extract_main_def Let_def split: sum.splits if_splits prod.splits)
  from extract_body_json[OF b] extract_main_trace[OF m] w1 show ?thesis by auto
qed

lemma extractBlocks_trace: "extractBlocks E mdFile dir w = (x, w') \<Longrightarrow> trace w' = trace w"
  by (auto simp: extractBlocks_def split: prod.splits sum.splits dest: extract_main_trace)

lemma validate_main_trace:
  "validate_main E args w = (x, w') \<Longrightarrow> set (trace w') \<subseteq> insert SetupValidator (set (trace w))"
  by (auto simp: validate_main_def Let_def setupMermaidValidator_def emit_def
      split: sum.splits if_splits prod.splits)

lemma validateFile_trace:
  "validateFile E target w = (x, w') \<Longrightarrow> set (trace w') \<subseteq> insert SetupValidator (set (trace w))"
  by (auto simp: validateFile_def split: prod.splits sum.splits dest!: validate_main_trace)

lemma check_blocks_inv:
  "check_blocks E infos acc w = (Inr r, w') \<Longrightarrow> checked acc \<Longrightarrow>
   checked r \<and> map info (checkedBlocks r) = map info (checkedBlocks acc) @ infos \<and>
   totalBlocks r = totalBlocks acc \<and>
   set (trace w') \<subseteq> insert SetupValidator (set (trace w))"
proof (induction infos arbitrary: acc w)
  case Nil
  then show ?case by auto
next
  case (Cons i infos)
  from Cons.prems(1) obtain v w1 where
    v: "validateFile E (filePath' i) w = (Inr v, w1)"
    by (auto split: prod.splits sum.splits)
  let ?acc = "acc\<lparr>
               checkedBlocks := checkedBlocks acc @
                 [\<lparr>info = i,
                   verdict = \<lparr>valid = valid (outcome v),
                     executionTime = executionTime (outcome v),
                     error = error (outcome v)\<rparr>\<rparr>],
               totalTime := totalTime acc + executionTime (outcome v),
               validCount :=
                 (if valid (outcome v) then validCount acc + 1
                  else validCount acc),
               invalidCount :=
                 (if valid (outcome v) then invalidCount acc
                  else invalidCount acc + 1)\<rparr>"
  have c: "check_blocks E infos ?acc w1 = (Inr r, w')"
    using Cons.prems(1) v by simp
  have a: "checked ?acc" using Cons.prems(2) by (simp add: checked_def)
  from Cons.IH[OF c a] validateFile_trace[OF v] show ?case by auto
qed

lemma check_blocks_trace:
  "check_blocks E infos acc w = (x, w') \<Longrightarrow>
   set (trace w') \<subseteq> insert SetupValidator (set (trace w))"
proof (induction infos arbitrary: acc w)
  case Nil
  then show ?case by auto
next
  case (Cons i infos)
  obtain v w1 where v: "validateFile E (filePath' i) w = (v, w1)"
    by (cases "validateFile E (filePath' i) w")
  show ?case
  proof (cases v)
    case (Inl e)
    with Cons.prems v validateFile_trace[OF v] show ?thesis by auto
  next
    case (Inr o)
    with Cons.prems v obtain acc' where "check_blocks E infos acc' w1 = (x, w')" by auto
    from Cons.IH[OF this] validateFile_trace[OF v] show ?thesis by auto
  qed
qed

lemma check_try_reported:
  assumes "check_try E mdFile dir kt q w = (x, w')" "trace w = []"
    "PrintReport r \<in> set (trace w') \<or> PrintJson r \<in> set (trace w')"
  shows "checked r \<and> length (checkedBlocks r) = totalBlocks r \<and>
     map (\<lambda>b. index' (info b)) (checkedBlocks r) = [0..<totalBlocks r] \<and> (\<exists>c. x = Inr c)"
proof -
  obtain y w1 where e: "extractBlocks E mdFile dir w = (y, w1)"
    by (cases "extractBlocks E mdFile dir w")
  note t1 = extractBlocks_trace[OF e]
  show ?thesis
  proof (cases y)
    case (Inl err)
    with assms e t1 show ?thesis by (auto simp: check_try_def)
  next
    case (Inr out)
    note ok = extractBlocks_ok[OF e[unfolded Inr]]
    let ?acc = "\<lparr>validCount = 0, invalidCount = 0, totalTime = 0, sourceFile = mdFile,
                      outputDir = dir, totalBlocks = totalBlocks' out,
                      checkedBlocks = []\<rparr>"
    obtain z w2 where c: "check_blocks E (blocks' out) ?acc w1 = (z, w2)"
      by (cases "check_blocks E (blocks' out) ?acc w1")
    from check_blocks_trace[OF c] t1 assms(2) have t2: "set (trace w2) \<subseteq> {SetupValidator}"
      by simp
    show ?thesis
    proof (cases z)
      case (Inl err)
      with assms e Inr ok c t2 show ?thesis
        by (auto simp: check_try_def)
    next
      case r2: (Inr res)
      have a: "checked ?acc" by (simp add: checked_def)
      note inv = check_blocks_inv[OF c[unfolded r2] a]
      have w': "trace w' = trace w2 @ [if q then PrintJson res else PrintReport res] @ (if kt then [] else [Cleanup dir])"
        using assms(1) e Inr ok c r2 by (auto simp: check_try_def Let_def emit_def cleanup_def)
      with assms(3) t2 have "r = res" by (auto split: if_splits)
      moreover have "x = Inr (if invalidCount res > 0 then 1 else 0)"
        using assms(1) e Inr ok c r2 by (auto simp: check_try_def Let_def)
      moreover have "length (checkedBlocks res) = totalBlocks res"
      proof -
        from inv have m: "map info (checkedBlocks res) = blocks' out" by simp
        have "length (checkedBlocks res) = length (map info (checkedBlocks res))" by simp
        also have "\<dots> = length (blocks' out)" by (simp only: m)
        finally show ?thesis using inv ok by simp
      qed
      moreover have "map (\<lambda>b. index' (info b)) (checkedBlocks res) = map index' (map info (checkedBlocks res))"
        by simp
      ultimately show ?thesis using inv ok by simp
    qed
  qed
qed

lemma check_main_reported:
  assumes "trace w = []"
    "PrintReport r \<in> set (trace (snd (check_main E args w))) \<or>
     PrintJson r \<in> set (trace (snd (check_main E args w)))"
  shows "checked r \<and> length (checkedBlocks r) = totalBlocks r \<and>
     map (\<lambda>b. index' (info b)) (checkedBlocks r) = [0..<totalBlocks r]"
proof -
  have n: "args \<noteq> []" "existsSync w (args ! 0)"
    using assms by (auto simp: check_main_def Let_def emit_def split: if_splits)
  obtain x w' where t: "check_try E (args ! 0) (output_dir args) (''--keep-temp'' \<in> set args)
      (''--quiet'' \<in> set args) w = (x, w')"
    by (cases "check_try E (args ! 0) (output_dir args) (''--keep-temp'' \<in> set args)
      (''--quiet'' \<in> set args) w")
  have "PrintReport r \<in> set (trace w') \<or> PrintJson r \<in> set (trace w')"
    using assms(2) n t by (cases x) (auto simp: check_main_def Let_def emit_def cleanup_def)
  from check_try_reported[OF t assms(1) this] show ?thesis by simp
qed



subsection \<open>The block files that \<open>extract.mjs\<close> writes\<close>













subsection \<open>The validation of the block files\<close>








subsection \<open>The exit code of \<open>check.mjs\<close>\<close>




text \<open>
  For a document that exists and cannot be read, \<open>extract.mjs\<close> ends with status 1 and
  \<open>execSync\<close> throws.
\<close>

lemma check_main_unreadable:
  assumes "args \<noteq> []" "existsSync w (args ! 0)" "readFileSync w (args ! 0) = Inl e"
  shows "check_main E args w =
    (1, w\<lparr>trace := trace w @
          [ErrorMessage (message (command_failed ''node extract.mjs'')), Cleanup (output_dir args)]\<rparr>)"
proof -
  have d: "output_dir [args ! 0, output_dir args] = output_dir args"
    by (simp add: output_dir_def)
  have "extract_main E [args ! 0, output_dir args] w = ((NotJson, 1), w)"
    using assms by (simp add: extract_main_def extract_body_def d)
  then have "extractBlocks E (args ! 0) (output_dir args) w =
      (Inl (command_failed ''node extract.mjs''), w)"
    by (simp add: extractBlocks_def execSync_def)
  then show ?thesis
    using assms by (simp add: check_main_def check_try_def cleanup_def emit_def)
qed





subsection \<open>Example runs of \<open>check.mjs\<close>\<close>

lemmas check_eval = check_main_def check_try_def extractBlocks_def extract_main_def
  extract_body_def output_dir_def existsSync_def readFileSync_def mkdirSync_def writeFileSync_def
  execSync_def JSON_parse_def validateFile_def validate_main_def setupMermaidValidator_def
  validate_def cleanup_def emit_def detectDiagramType'_def detect_with_def lookup_or_self_def
  typeMap'_def object_prototype_names_def is_word_char_def to_text_def
  example_env_def example_world_def example_parser_def json_syntax_error_def command_failed_def
  node_error_def Let_def

lemma show_nat_0: "show_nat 0 = ''0''"
  by (simp add: show_nat.simps[of 0])

lemma check_missing:
  "check_main example_env [''missing.md''] (example_world []) =
    (1, example_world []\<lparr>trace := [FileMissing ''missing.md'']\<rparr>)"
  by (simp add: check_eval)

lemma check_valid:
  "fst (check_main example_env [''doc.md'', ''tmp'', ''--quiet'']
     (example_world [(''doc.md'', File valid_document)])) = 0 \<and>
   trace (snd (check_main example_env [''doc.md'', ''tmp'', ''--quiet'']
     (example_world [(''doc.md'', File valid_document)]))) =
   [SetupValidator,
    PrintJson \<lparr>validCount = 1, invalidCount = 0, totalTime = 5, sourceFile = ''doc.md'',
      outputDir = ''tmp'', totalBlocks = 1,
      checkedBlocks = [\<lparr>info = \<lparr>fileName = ''doc_block0_flowchart.mmd'',
          filePath' = ''tmp/doc_block0_flowchart.mmd'', lineStart' = 2, lineEnd' = 4,
          diagramType' = JsString ''flowchart'', index' = 0\<rparr>,
        verdict = \<lparr>valid = True, executionTime = 5, error = None\<rparr>\<rparr>]\<rparr>,
    Cleanup ''tmp'']"
  by (simp add: check_eval valid_blocks show_nat_0)

lemma check_invalid:
  "fst (check_main example_env [''bad.md''] (example_world [(''bad.md'', File invalid_document)])) = 1 \<and>
   trace (snd (check_main example_env [''bad.md'']
     (example_world [(''bad.md'', File invalid_document)]))) =
   [SetupValidator, ErrorMessage ''Command failed: node validate.mjs'', Cleanup ''.mermaid_temp'']"
  by (simp add: check_eval invalid_blocks show_nat_0)






section \<open>Exit codes\<close>






section \<open>Documents without diagram blocks\<close>

text \<open>
  Claim C5 says that a run on a document with zero diagram blocks ends with a zero-block
  report and exit code 0, without setting up the validator. In \<open>check.mjs\<close> the branch
  \<open>extractResult.totalBlocks === 0\<close>, which ends the run with \<open>process.exit(0)\<close>, cannot
  be reached: for such a document \<open>extract.mjs\<close> prints a notice, not JSON, and ends
  with status 0, so \<open>JSON.parse\<close> throws inside the \<open>try\<close> block. Every run on a readable
  document without diagram blocks prints the message of that error, attempts the cleanup
  and ends with exit code 1; it sets up no validator and prints no report.
\<close>

theorem zero_blocks_exit:
  assumes "args \<noteq> []" "fs w (args ! 0) = File content" "extractMermaidBlocks content = []"
  shows "check_main E args w =
    (1, w\<lparr>trace := trace w @
          [ErrorMessage (message json_syntax_error), Cleanup (output_dir args)]\<rparr>)"
proof -
  have d: "output_dir [args ! 0, output_dir args] = output_dir args"
    by (simp add: output_dir_def)
  have "extract_main E [args ! 0, output_dir args] w = ((NotJson, 0), w)"
    using assms by (simp add: extract_main_def extract_body_def existsSync_def readFileSync_def d)
  then have "extractBlocks E (args ! 0) (output_dir args) w = (Inl json_syntax_error, w)"
    by (simp add: extractBlocks_def execSync_def JSON_parse_def)
  then show ?thesis
    using assms by (simp add: check_main_def check_try_def existsSync_def cleanup_def emit_def)
qed

theorem zero_blocks_exit_witness:
  "fs (example_world [(''notes.md'', File plain_document)]) ''notes.md'' = File plain_document \<and>
   extractMermaidBlocks plain_document = [] \<and>
   check_main example_env [''notes.md''] (example_world [(''notes.md'', File plain_document)]) =
     (1, example_world [(''notes.md'', File plain_document)]
         \<lparr>trace := [ErrorMessage ''Unexpected token'', Cleanup ''.mermaid_temp'']\<rparr>)"
proof -
  let ?W = "example_world [(''notes.md'', File plain_document)]"
  have f: "fs ?W ''notes.md'' = File plain_document" by (simp add: example_world_def)
  have t: "trace ?W = []" by (simp add: example_world_def)
  from zero_blocks_exit[where E = example_env and args = "[''notes.md'']" and w = ?W
      and content = plain_document] f plain_blocks
  have "check_main example_env [''notes.md''] ?W =
     (1, ?W\<lparr>trace := trace ?W @
          [ErrorMessage (message json_syntax_error), Cleanup (output_dir [''notes.md''])]\<rparr>)"
    by simp
  then have "check_main example_env [''notes.md''] ?W =
     (1, ?W\<lparr>trace := [ErrorMessage ''Unexpected token'', Cleanup ''.mermaid_temp'']\<rparr>)"
    by (simp add: t json_syntax_error_def output_dir_def)
  with f plain_blocks show ?thesis by blast
qed


section \<open>Runtime errors\<close>

text \<open>
  Claim C6: in every run of \<open>check.mjs\<close> in which an error is thrown during the
  orchestration, that is inside the \<open>try\<close> block of \<open>main\<close>, the error is caught, its
  message is printed, the cleanup of the temporary directory is attempted, and the process
  ends with exit code 1. In particular, when the document exists and cannot be read,
  \<open>extract.mjs\<close> fails, \<open>execSync\<close> throws, and the run ends in this way with the message
  of that error.
\<close>

theorem runtime_error:
  "(args \<noteq> [] \<and> existsSync w (args ! 0) \<and>
    check_try E (args ! 0) (output_dir args) (''--keep-temp'' \<in> set args)
      (''--quiet'' \<in> set args) w = (Inl e, w') \<longrightarrow>
      check_main E args w =
        (1, w'\<lparr>trace := trace w' @ [ErrorMessage (message e), Cleanup (output_dir args)]\<rparr>) \<and>
      fst (check_main E args w) \<noteq> 0) \<and>
   (args \<noteq> [] \<and> existsSync w (args ! 0) \<and> readFileSync w (args ! 0) = Inl e' \<longrightarrow>
      check_try E (args ! 0) (output_dir args) (''--keep-temp'' \<in> set args)
        (''--quiet'' \<in> set args) w = (Inl (command_failed ''node extract.mjs''), w) \<and>
      check_main E args w =
        (1, w\<lparr>trace := trace w @
              [ErrorMessage (message (command_failed ''node extract.mjs'')),
               Cleanup (output_dir args)]\<rparr>))"
proof (intro conjI impI)
  assume a: "args \<noteq> [] \<and> existsSync w (args ! 0) \<and>
    check_try E (args ! 0) (output_dir args) (''--keep-temp'' \<in> set args)
      (''--quiet'' \<in> set args) w = (Inl e, w')"
  then show m: "check_main E args w =
        (1, w'\<lparr>trace := trace w' @ [ErrorMessage (message e), Cleanup (output_dir args)]\<rparr>)"
    by (simp add: check_main_def Let_def cleanup_def emit_def)
  then show "fst (check_main E args w) \<noteq> 0" by simp
next
  assume a: "args \<noteq> [] \<and> existsSync w (args ! 0) \<and> readFileSync w (args ! 0) = Inl e'"
  have d: "output_dir [args ! 0, output_dir args] = output_dir args"
    by (simp add: output_dir_def)
  have "extract_main E [args ! 0, output_dir args] w = ((NotJson, 1), w)"
    using a by (simp add: extract_main_def extract_body_def d)
  then have "extractBlocks E (args ! 0) (output_dir args) w =
      (Inl (command_failed ''node extract.mjs''), w)"
    by (simp add: extractBlocks_def execSync_def)
  then show "check_try E (args ! 0) (output_dir args) (''--keep-temp'' \<in> set args)
        (''--quiet'' \<in> set args) w = (Inl (command_failed ''node extract.mjs''), w)"
    by (simp add: check_try_def)
next
  assume "args \<noteq> [] \<and> existsSync w (args ! 0) \<and> readFileSync w (args ! 0) = Inl e'"
  then show "check_main E args w =
        (1, w\<lparr>trace := trace w @
              [ErrorMessage (message (command_failed ''node extract.mjs'')),
               Cleanup (output_dir args)]\<rparr>)"
    by (intro check_main_unreadable[where e = e']) simp_all
qed

text \<open>
  A run on a file that cannot be read, and a run on a document whose diagram the parser
  rejects: \<open>validate.mjs\<close> ends with status 1 and \<open>execSync\<close> throws in the loop.
\<close>

theorem runtime_error_witness:
  "existsSync (example_world [(''locked.md'', Unreadable (node_error ''EACCES''))]) ''locked.md'' \<and>
   readFileSync (example_world [(''locked.md'', Unreadable (node_error ''EACCES''))]) ''locked.md'' =
     Inl (node_error ''EACCES'') \<and>
   check_main example_env [''locked.md'']
     (example_world [(''locked.md'', Unreadable (node_error ''EACCES''))]) =
     (1, example_world [(''locked.md'', Unreadable (node_error ''EACCES''))]
         \<lparr>trace := [ErrorMessage ''Command failed: node extract.mjs'',
                    Cleanup ''.mermaid_temp'']\<rparr>) \<and>
   existsSync (example_world [(''bad.md'', File invalid_document)]) ''bad.md'' \<and>
   fst (check_try example_env ''bad.md'' ''.mermaid_temp'' False False
     (example_world [(''bad.md'', File invalid_document)])) =
     Inl (command_failed ''node validate.mjs'') \<and>
   fst (check_main example_env [''bad.md'']
     (example_world [(''bad.md'', File invalid_document)])) = 1 \<and>
   trace (snd (check_main example_env [''bad.md'']
     (example_world [(''bad.md'', File invalid_document)]))) =
     [SetupValidator, ErrorMessage ''Command failed: node validate.mjs'',
      Cleanup ''.mermaid_temp'']"
proof -
  let ?L = "example_world [(''locked.md'', Unreadable (node_error ''EACCES''))]"
  let ?B = "example_world [(''bad.md'', File invalid_document)]"
  have x1: "existsSync ?L ''locked.md''" by (simp add: existsSync_def example_world_def)
  have f1: "readFileSync ?L ''locked.md'' = Inl (node_error ''EACCES'')"
    by (simp add: readFileSync_def example_world_def)
  have t1: "\<And>xs. trace (example_world xs) = []" by (simp add: example_world_def)
  from runtime_error[where E = example_env and args = "[''locked.md'']" and w = ?L
      and e' = "node_error ''EACCES''"] x1 f1
  have "check_main example_env [''locked.md''] ?L =
     (1, ?L\<lparr>trace := trace ?L @
          [ErrorMessage (message (command_failed ''node extract.mjs'')),
           Cleanup (output_dir [''locked.md''])]\<rparr>)"
    by simp
  then have r1: "check_main example_env [''locked.md''] ?L =
     (1, ?L\<lparr>trace := [ErrorMessage ''Command failed: node extract.mjs'',
                    Cleanup ''.mermaid_temp'']\<rparr>)"
    by (simp add: t1 command_failed_def node_error_def output_dir_def)
  have x2: "existsSync ?B ''bad.md''" by (simp add: existsSync_def example_world_def)
  obtain w' where t2: "check_try example_env ''bad.md'' ''.mermaid_temp'' False False ?B =
      (Inl (command_failed ''node validate.mjs''), w')"
    and t3: "trace w' = [SetupValidator]"
    by (simp add: check_eval invalid_blocks show_nat_0)
  have o: "output_dir [''bad.md''] = ''.mermaid_temp''" by (simp add: output_dir_def)
  from runtime_error[where E = example_env and args = "[''bad.md'']" and w = ?B
      and e = "command_failed ''node validate.mjs''" and w' = w'] x2 t2 o
  have "check_main example_env [''bad.md''] ?B =
        (1, w'\<lparr>trace := trace w' @ [ErrorMessage (message (command_failed ''node validate.mjs'')),
            Cleanup ''.mermaid_temp'']\<rparr>)"
    by simp
  then have r2: "fst (check_main example_env [''bad.md''] ?B) = 1"
    and r3: "trace (snd (check_main example_env [''bad.md''] ?B)) =
     [SetupValidator, ErrorMessage ''Command failed: node validate.mjs'',
      Cleanup ''.mermaid_temp'']"
    by (simp_all add: t3 command_failed_def node_error_def)
  from t2 have t4: "fst (check_try example_env ''bad.md'' ''.mermaid_temp'' False False ?B) =
     Inl (command_failed ''node validate.mjs'')" by simp
  from x1 f1 r1 x2 t4 r2 r3 show ?thesis by blast
qed


section \<open>Reports\<close>

text \<open>
  Claim C8: in every report that \<open>validateMarkdownFile\<close> returns and in every result that
  \<open>check.mjs\<close> prints, the valid and invalid counts add up to the total number of blocks,
  the total time is the sum of the execution times of the entries, and the entries are in
  extraction order: their indices are 0, 1, ... and, in \<open>mermaid-check.mjs\<close>, their blocks
  are the extracted blocks.
\<close>

theorem report_invariants:
  "(validateMarkdownFile E path p w = (Inr r, w') \<longrightarrow>
      validCount r + invalidCount r = totalDiagrams r \<and>
      totalTime r = sum_list (map (\<lambda>d. executionTime (validation d)) (diagrams r)) \<and>
      map (\<lambda>d. index (extracted d)) (diagrams r) = [0..<totalDiagrams r] \<and>
      (\<exists>content. readFileSync w path = Inr content \<and>
         map extracted (diagrams r) = extractMermaidBlocks content)) \<and>
   (trace w = [] \<and>
    (PrintReport c \<in> set (trace (snd (check_main E args w))) \<or>
     PrintJson c \<in> set (trace (snd (check_main E args w)))) \<longrightarrow>
      validCount c + invalidCount c = totalBlocks c \<and>
      totalTime c = sum_list (map (\<lambda>b. executionTime (verdict b)) (checkedBlocks c)) \<and>
      map (\<lambda>b. index' (info b)) (checkedBlocks c) = [0..<totalBlocks c])"
proof -
  have a: "validCount r + invalidCount r = totalDiagrams r \<and>
      totalTime r = sum_list (map (\<lambda>d. executionTime (validation d)) (diagrams r)) \<and>
      map (\<lambda>d. index (extracted d)) (diagrams r) = [0..<totalDiagrams r] \<and>
      (\<exists>content. readFileSync w path = Inr content \<and>
         map extracted (diagrams r) = extractMermaidBlocks content)"
    if h: "validateMarkdownFile E path p w = (Inr r, w')"
  proof -
    from validateMarkdownFile_cases[of w path E p] h obtain content where
      c: "readFileSync w path = Inr content" and t: "tallied r" and
      m: "map extracted (diagrams r) = extractMermaidBlocks content" and
      n: "totalDiagrams r = length (extractMermaidBlocks content)"
      by auto
    have "length (diagrams r) = length (map extracted (diagrams r))" by simp
    also have "\<dots> = totalDiagrams r" by (simp only: m n)
    finally have l: "length (diagrams r) = totalDiagrams r" .
    have "map (\<lambda>d. index (extracted d)) (diagrams r) = map index (map extracted (diagrams r))"
      by simp
    also have "\<dots> = [0..<totalDiagrams r]"
      by (simp only: m n extract_index[symmetric])
    finally have i: "map (\<lambda>d. index (extracted d)) (diagrams r) = [0..<totalDiagrams r]" .
    from t l sum_length_filter[of "\<lambda>d. valid (validation d)" "diagrams r"]
    have "validCount r + invalidCount r = totalDiagrams r" by (simp add: tallied_def)
    with t i c m show ?thesis by (auto simp: tallied_def)
  qed
  have b: "validCount c + invalidCount c = totalBlocks c \<and>
      totalTime c = sum_list (map (\<lambda>b. executionTime (verdict b)) (checkedBlocks c)) \<and>
      map (\<lambda>b. index' (info b)) (checkedBlocks c) = [0..<totalBlocks c]"
    if "trace w = []" "PrintReport c \<in> set (trace (snd (check_main E args w))) \<or>
     PrintJson c \<in> set (trace (snd (check_main E args w)))"
    using check_main_reported[OF that] by (simp add: checked_def)
  from a b show ?thesis by blast
qed

theorem report_invariants_witness:
  "validateMarkdownFile example_env ''doc.md'' example_parser
     (example_world [(''doc.md'', File valid_document)]) =
    (Inr \<lparr>validCount = 1, invalidCount = 0, totalTime = 5, filePath = ''doc.md'',
             totalDiagrams = 1,
             diagrams = [\<lparr>extracted = \<lparr>code = ''graph TD\<newline>A-->B'', lineStart = 2, lineEnd = 4, index = 0\<rparr>,
                diagramType = JsString ''flowchart'',
                validation = \<lparr>valid = True, executionTime = 5, error = None\<rparr>\<rparr>]\<rparr>,
     example_world [(''doc.md'', File valid_document)]\<lparr>readings := 2\<rparr>) \<and>
   (1::nat) + 0 = 1 \<and>
   (5::real) = sum_list (map (\<lambda>d. executionTime (validation d))
      [\<lparr>extracted = \<lparr>code = ''graph TD\<newline>A-->B'', lineStart = 2, lineEnd = 4, index = 0\<rparr>,
        diagramType = JsString ''flowchart'',
        validation = \<lparr>valid = True, executionTime = 5, error = None\<rparr>\<rparr>]) \<and>
   PrintJson \<lparr>validCount = 1, invalidCount = 0, totalTime = 5, sourceFile = ''doc.md'',
      outputDir = ''tmp'', totalBlocks = 1,
      checkedBlocks = [\<lparr>info = \<lparr>fileName = ''doc_block0_flowchart.mmd'',
          filePath' = ''tmp/doc_block0_flowchart.mmd'', lineStart' = 2, lineEnd' = 4,
          diagramType' = JsString ''flowchart'', index' = 0\<rparr>,
        verdict = \<lparr>valid = True, executionTime = 5, error = None\<rparr>\<rparr>]\<rparr>
     \<in> set (trace (snd (check_main example_env [''doc.md'', ''tmp'', ''--quiet'']
           (example_world [(''doc.md'', File valid_document)])))) \<and>
   map (\<lambda>b. index' (info b))
     [\<lparr>info = \<lparr>fileName = ''doc_block0_flowchart.mmd'',
          filePath' = ''tmp/doc_block0_flowchart.mmd'', lineStart' = 2, lineEnd' = 4,
          diagramType' = JsString ''flowchart'', index' = 0\<rparr>,
        verdict = \<lparr>valid = True, executionTime = 5, error = None\<rparr>\<rparr>] = [0..<1]"
proof -
  let ?w = "example_world [(''doc.md'', File valid_document)]"
  let ?R = "\<lparr>validCount = 1, invalidCount = 0, totalTime = 5, filePath = ''doc.md'',
             totalDiagrams = 1,
             diagrams = [\<lparr>extracted = \<lparr>code = ''graph TD\<newline>A-->B'', lineStart = 2, lineEnd = 4, index = 0\<rparr>,
                diagramType = JsString ''flowchart'',
                validation = \<lparr>valid = True, executionTime = 5, error = None\<rparr>\<rparr>]\<rparr>"
  let ?C = "\<lparr>validCount = 1, invalidCount = 0, totalTime = 5, sourceFile = ''doc.md'',
      outputDir = ''tmp'', totalBlocks = 1,
      checkedBlocks = [\<lparr>info = \<lparr>fileName = ''doc_block0_flowchart.mmd'',
          filePath' = ''tmp/doc_block0_flowchart.mmd'', lineStart' = 2, lineEnd' = 4,
          diagramType' = JsString ''flowchart'', index' = 0\<rparr>,
        verdict = \<lparr>valid = True, executionTime = 5, error = None\<rparr>\<rparr>]\<rparr>"
  let ?args = "[''doc.md'', ''tmp'', ''--quiet'']"
  have 1: "validateMarkdownFile example_env ''doc.md'' example_parser ?w = (Inr ?R, ?w\<lparr>readings := 2\<rparr>)"
    by (simp add: run_eval valid_blocks)
  have 2: "trace ?w = [] \<and> (PrintReport ?C \<in> set (trace (snd (check_main example_env ?args ?w))) \<or>
      PrintJson ?C \<in> set (trace (snd (check_main example_env ?args ?w))))"
    using check_valid by (simp add: example_world_def)
  have 3: "PrintJson ?C \<in> set (trace (snd (check_main example_env ?args ?w)))"
    using check_valid by simp
  from report_invariants[where E = example_env and path = "''doc.md''" and p = example_parser
      and w = ?w and r = ?R and w' = "?w\<lparr>readings := 2\<rparr>" and args = ?args and c = ?C] 1 2
  have "validCount ?R + invalidCount ?R = totalDiagrams ?R \<and>
      totalTime ?R = sum_list (map (\<lambda>d. executionTime (validation d)) (diagrams ?R)) \<and>
      map (\<lambda>b. index' (info b)) (checkedBlocks ?C) = [0..<totalBlocks ?C]"
    by blast
  with 1 3 show ?thesis by simp
qed

end
